theory Spec2Isabelle
  imports Complex_Main "HOL-Library.Word"
begin

section \<open>The device-management context: src/context/UserMedia.tsx\<close>

subsection \<open>Browser objects\<close>

text \<open>
  A \<open>MediaStreamTrack\<close> is a mutable browser object that several handles may share, so the
  tracks live in an explicit store, addressed by reference. A track is created live and
  enabled; \<open>stop()\<close> ends it, and writing \<open>enabled\<close> mutes or unmutes it.
\<close>

type_synonym track_ref = nat

record media_stream_track =
  track_kind :: string
  track_device :: string
  track_enabled :: bool
  track_live :: bool

text \<open>What the browser decides about a track it creates: its kind and its device.\<close>

type_synonym track_init = "string \<times> string"

record device_info =
  dev_kind :: string
  dev_deviceId :: string
  dev_label :: string

text \<open>
  The handles of the SDK (@mux/spaces-web). The constructor of \<open>LocalTrack\<close> takes the source,
  the track and the device id, in this order, and the handle gives them back as \<open>.source\<close>,
  \<open>.track\<close> and \<open>.deviceId\<close>. A value passed to it is a \<open>MediaStreamTrack\<close> or a string. The
  provider calls \<open>new LocalTrack(track, "audio", "input")\<close>, with the \<open>MediaStreamTrack\<close> in the
  first place: on the handles it builds, \<open>.track\<close> is the string \<open>"audio"\<close> or \<open>"video"\<close>.
\<close>

datatype js_value = TrackObject track_ref | StringValue string

record local_track =
  lt_source :: js_value
  lt_track :: js_value
  lt_deviceId :: js_value

definition LocalTrack :: "js_value \<Rightarrow> js_value \<Rightarrow> js_value \<Rightarrow> local_track" where
  "LocalTrack a b c = \<lparr>lt_source = a, lt_track = b, lt_deviceId = c\<rparr>"

text \<open>
  An \<open>AnalyserNode\<close> fed by one track. \<open>frequencyBinCount\<close> is half of \<open>fftSize\<close>;
  \<open>createAnalyser()\<close> gives \<open>fftSize = 2048\<close>.
\<close>

record analyser_node =
  an_source :: track_ref
  fftSize :: nat

definition frequencyBinCount :: "analyser_node \<Rightarrow> nat" where
  "frequencyBinCount an = fftSize an div 2"

text \<open>
  One side (audio or video) of a constraints object: \<open>false\<close>, or an object with an optional
  \<open>deviceId\<close> that may carry \<open>defaultAudioConstraints\<close> (a constant of shared/defaults).
\<close>

datatype constraint = CFalse | CObj "string option" bool

record media_options =
  opt_audio :: constraint
  opt_video :: constraint

datatype js_error = TypeError | DOMException string | Error string

text \<open>What \<open>navigator\<close> offers: no \<open>mediaDevices\<close>, \<open>mediaDevices\<close> without \<open>getUserMedia\<close>, or both.\<close>

datatype navigator = NoMediaDevices | NoGetUserMedia | HasGetUserMedia

text \<open>
  The calls and state writes an operation makes, in the order it makes them: \<open>EvTrackStop\<close> is
  \<open>stop()\<close> on a \<open>MediaStreamTrack\<close>, \<open>EvLocalTrackStop\<close> is \<open>stop()\<close> called on a handle, also
  when the call throws. Writing a track's \<open>enabled\<close> flag is a property assignment, not a
  call, and is not recorded.
\<close>

datatype event =
    EvNavGetUserMedia media_options
  | EvSdkGetUserMedia media_options
  | EvEnumerateDevices
  | EvTrackStop track_ref
  | EvLocalTrackStop local_track
  | EvSetActiveCamera "local_track option"
  | EvSetActiveMicrophone "local_track option"
  | EvSetLocalAudioAnalyser analyser_node
  | EvSetMicrophoneDevices "device_info list"
  | EvSetCameraDevices "device_info list"
  | EvSetUserMediaError string
  | EvSetCameraDeviceId string
  | EvSetMicrophoneDeviceId string

subsection \<open>The provider's state\<close>

text \<open>
  The six \<open>useState\<close> slots of \<open>UserMediaProvider\<close>, the two device ids of the user context,
  the module-level object \<open>defaultMicrophoneCameraOptions\<close> (which
  \<open>requestPermissionAndStartDevices\<close> aliases and writes to), the store of tracks, and
  the record of calls.

  A callback reads the slots through its closure, that is, as they were at the render that
  made it, and writes through the setters. The operations that read a slot to decide what
  to do (\<open>stopActiveCamera\<close>, \<open>changeActiveCamera\<close>, \<open>changeActiveMicrophone\<close>, the two mute
  operations) therefore take two states: \<open>r\<close>, the state their closure was made at, and \<open>s\<close>,
  the current one. \<open>getActiveMicrophoneLevel\<close> is taken at a render whose state is current.
  An asynchronous operation is one function from its call to its settlement; after its
  \<open>await\<close> none of them reads a slot.
\<close>

record provider =
  microphoneDevices :: "device_info list"
  activeMicrophone :: "local_track option"
  cameraDevices :: "device_info list"
  activeCamera :: "local_track option"
  localAudioAnalyser :: "analyser_node option"
  userMediaError :: "string option"
  cameraDeviceId :: "string option"
  microphoneDeviceId :: "string option"
  defaultMicrophoneCameraOptions :: media_options
  tracks :: "track_ref \<Rightarrow> media_stream_track"
  next_track :: nat
  trace :: "event list"

definition defaultCameraOption :: constraint where
  "defaultCameraOption = CObj None False"

definition defaultMicrophoneOption :: constraint where
  "defaultMicrophoneOption = CObj None True"

definition noTrack :: media_stream_track where
  "noTrack = \<lparr>track_kind = [], track_device = [], track_enabled = False, track_live = False\<rparr>"

text \<open>The state at mount: the \<open>useState\<close> defaults, no track created yet.\<close>

definition mount :: "string option \<Rightarrow> string option \<Rightarrow> provider" where
  "mount cam mic =
     \<lparr>microphoneDevices = [], activeMicrophone = None, cameraDevices = [],
      activeCamera = None, localAudioAnalyser = None, userMediaError = None,
      cameraDeviceId = cam, microphoneDeviceId = mic,
      defaultMicrophoneCameraOptions =
        \<lparr>opt_audio = defaultMicrophoneOption, opt_video = defaultCameraOption\<rparr>,
      tracks = (\<lambda>_. noTrack), next_track = 0, trace = []\<rparr>"

definition emit :: "event \<Rightarrow> provider \<Rightarrow> provider" where
  "emit e s = s\<lparr>trace := trace s @ [e]\<rparr>"

definition setActiveCamera :: "local_track option \<Rightarrow> provider \<Rightarrow> provider" where
  "setActiveCamera v s = emit (EvSetActiveCamera v) (s\<lparr>activeCamera := v\<rparr>)"

definition setActiveMicrophone :: "local_track option \<Rightarrow> provider \<Rightarrow> provider" where
  "setActiveMicrophone v s = emit (EvSetActiveMicrophone v) (s\<lparr>activeMicrophone := v\<rparr>)"

definition setLocalAudioAnalyser :: "analyser_node \<Rightarrow> provider \<Rightarrow> provider" where
  "setLocalAudioAnalyser an s =
     emit (EvSetLocalAudioAnalyser an) (s\<lparr>localAudioAnalyser := Some an\<rparr>)"

definition setMicrophoneDevices :: "device_info list \<Rightarrow> provider \<Rightarrow> provider" where
  "setMicrophoneDevices ds s = emit (EvSetMicrophoneDevices ds) (s\<lparr>microphoneDevices := ds\<rparr>)"

definition setCameraDevices :: "device_info list \<Rightarrow> provider \<Rightarrow> provider" where
  "setCameraDevices ds s = emit (EvSetCameraDevices ds) (s\<lparr>cameraDevices := ds\<rparr>)"

definition setUserMediaError :: "string \<Rightarrow> provider \<Rightarrow> provider" where
  "setUserMediaError m s = emit (EvSetUserMediaError m) (s\<lparr>userMediaError := Some m\<rparr>)"

definition setCameraDeviceId :: "string \<Rightarrow> provider \<Rightarrow> provider" where
  "setCameraDeviceId d s = emit (EvSetCameraDeviceId d) (s\<lparr>cameraDeviceId := Some d\<rparr>)"

definition setMicrophoneDeviceId :: "string \<Rightarrow> provider \<Rightarrow> provider" where
  "setMicrophoneDeviceId d s =
     emit (EvSetMicrophoneDeviceId d) (s\<lparr>microphoneDeviceId := Some d\<rparr>)"

text \<open>The one message every caught failure is reduced to.\<close>

definition userMediaErrorMessage :: string where
  "userMediaErrorMessage =
     ''Error accessing user media devices. Please ensure that you have a working microphone and camera.''"

subsection \<open>Tracks: creation and stop\<close>

text \<open>A resolved \<open>getUserMedia\<close> hands over new track objects, live and enabled.\<close>

fun newTracks :: "track_init list \<Rightarrow> provider \<Rightarrow> track_ref list \<times> provider" where
  "newTracks [] s = ([], s)"
| "newTracks ((k, d) # ts) s =
     (let i = next_track s;
          s' = s\<lparr>tracks := (tracks s)(i := \<lparr>track_kind = k, track_device = d,
                                            track_enabled = True, track_live = True\<rparr>),
                 next_track := Suc i\<rparr>
      in case newTracks ts s' of (is, s'') \<Rightarrow> (i # is, s''))"

text \<open>\<open>track.stop()\<close>, which is also what \<open>LocalTrack.stop()\<close> does to the track it wraps.\<close>

definition stopTrack :: "track_ref \<Rightarrow> provider \<Rightarrow> provider" where
  "stopTrack i s =
     emit (EvTrackStop i) (s\<lparr>tracks := (tracks s)(i := (tracks s i)\<lparr>track_live := False\<rparr>)\<rparr>)"

definition setEnabled :: "track_ref \<Rightarrow> bool \<Rightarrow> provider \<Rightarrow> provider" where
  "setEnabled i b s = s\<lparr>tracks := (tracks s)(i := (tracks s i)\<lparr>track_enabled := b\<rparr>)\<rparr>"

subsection \<open>The operations\<close>

text \<open>
  What the SDK and the browser do with a handle's \<open>.track\<close>. \<open>stop()\<close> on a handle stops the
  track it holds; \<open>.track.enabled = b\<close> writes the flag of that track; \<open>new MediaStream([t])\<close>
  takes a track. Where \<open>.track\<close> is a string, each of the three throws a \<open>TypeError\<close> (the module
  is strict code) and does nothing else. The first component of a result is the error thrown,
  if any.
\<close>

definition localTrackStop :: "local_track \<Rightarrow> provider \<Rightarrow> js_error option \<times> provider" where
  "localTrackStop h s =
     (let s1 = emit (EvLocalTrackStop h) s
      in case lt_track h of
           TrackObject i \<Rightarrow> (None, stopTrack i s1)
         | StringValue x \<Rightarrow> (Some TypeError, s1))"

definition setTrackEnabled :: "local_track \<Rightarrow> bool \<Rightarrow> provider \<Rightarrow> js_error option \<times> provider" where
  "setTrackEnabled h b s =
     (case lt_track h of
        TrackObject i \<Rightarrow> (None, setEnabled i b s)
      | StringValue x \<Rightarrow> (Some TypeError, s))"

text \<open>
  \<open>setupLocalMicrophoneAnalyser\<close>: the \<open>MediaStream\<close> is built first, from \<open>track.track\<close>; the
  analyser is set only when that succeeded.
\<close>

definition setupLocalMicrophoneAnalyser ::
  "local_track \<Rightarrow> provider \<Rightarrow> js_error option \<times> provider" where
  "setupLocalMicrophoneAnalyser t s =
     (case lt_track t of
        TrackObject i \<Rightarrow> (None, setLocalAudioAnalyser \<lparr>an_source = i, fftSize = 2048\<rparr> s)
      | StringValue x \<Rightarrow> (Some TypeError, s))"

definition stopActiveCamera :: "provider \<Rightarrow> provider \<Rightarrow> js_error option \<times> provider" where
  "stopActiveCamera r s =
     (case activeCamera r of
        None \<Rightarrow> (None, s)
      | Some c \<Rightarrow>
          (case localTrackStop c s of
             (Some e, s1) \<Rightarrow> (Some e, s1)
           | (None, s1) \<Rightarrow> (None, setActiveCamera None s1)))"

definition muteActiveMicrophone :: "provider \<Rightarrow> provider \<Rightarrow> js_error option \<times> provider" where
  "muteActiveMicrophone r s =
     (case activeMicrophone r of
        None \<Rightarrow> (None, s)
      | Some m \<Rightarrow> setTrackEnabled m False s)"

definition unMuteActiveMicrophone :: "provider \<Rightarrow> provider \<Rightarrow> js_error option \<times> provider" where
  "unMuteActiveMicrophone r s =
     (case activeMicrophone r of
        None \<Rightarrow> (None, s)
      | Some m \<Rightarrow> setTrackEnabled m True s)"

text \<open>
  \<open>if (microphoneDeviceId)\<close>: an optional string is truthy when it is given and not empty.
\<close>

definition truthyId :: "string option \<Rightarrow> bool" where
  "truthyId d = (case d of None \<Rightarrow> False | Some x \<Rightarrow> x \<noteq> [])"

type_synonym user_media = "media_options \<Rightarrow> js_error + track_init list"

text \<open>
  \<open>requestPermissionAndPopulateDevices\<close>. Reading \<open>navigator.mediaDevices.getUserMedia\<close>
  happens before the promise chain exists, so where \<open>navigator\<close> lacks it the \<open>TypeError\<close> is
  thrown to the caller; every rejection inside the chain reaches the \<open>catch\<close>. The first
  component of the result is the error that leaves the operation, if any.
\<close>

definition requestPermissionAndPopulateDevices ::
  "navigator \<Rightarrow> user_media \<Rightarrow> js_error + device_info list \<Rightarrow> provider
     \<Rightarrow> js_error option \<times> provider" where
  "requestPermissionAndPopulateDevices nav gum enum s =
     (if nav \<noteq> HasGetUserMedia then (Some TypeError, s)
      else
        let s1 = emit (EvNavGetUserMedia (defaultMicrophoneCameraOptions s)) s in
        case gum (defaultMicrophoneCameraOptions s) of
          Inl e \<Rightarrow> (None, setUserMediaError userMediaErrorMessage s1)
        | Inr stream \<Rightarrow>
            (case newTracks stream s1 of (ids, s2) \<Rightarrow>
               let s3 = fold stopTrack ids s2;
                   s4 = emit EvEnumerateDevices s3
               in case enum of
                    Inl e \<Rightarrow> (None, setUserMediaError userMediaErrorMessage s4)
                  | Inr devices \<Rightarrow>
                      (None,
                       setCameraDevices (filter (\<lambda>device. dev_kind device = ''videoinput'') devices)
                         (setMicrophoneDevices
                            (filter (\<lambda>device. dev_kind device = ''audioinput'') devices) s4))))"

text \<open>
  The constraints \<open>requestPermissionAndStartDevices\<close> asks with. \<open>constraints\<close> is the
  module-level object itself, so the two assignments write to it.
\<close>

definition startConstraints :: "string option \<Rightarrow> string option \<Rightarrow> provider \<Rightarrow> media_options" where
  "startConstraints microphoneId cameraId s =
     (let c0 = defaultMicrophoneCameraOptions s;
          c1 = (if truthyId microphoneId then c0\<lparr>opt_audio := CObj microphoneId False\<rparr> else c0)
      in if truthyId cameraId then c1\<lparr>opt_video := CObj cameraId False\<rparr> else c1)"

text \<open>
  The body of the \<open>forEach\<close> over the tracks of the stream, and the \<open>forEach\<close>: a throw in the
  body ends the loop, with the writes made so far.
\<close>

definition startTrack :: "track_ref \<Rightarrow> provider \<Rightarrow> js_error option \<times> provider" where
  "startTrack i s =
     (case (if track_kind (tracks s i) = ''audio''
            then let newMicrophone =
                       LocalTrack (TrackObject i) (StringValue ''audio'') (StringValue ''input'')
                 in setupLocalMicrophoneAnalyser newMicrophone
                      (setActiveMicrophone (Some newMicrophone) s)
            else (None, s)) of
        (Some e, s1) \<Rightarrow> (Some e, s1)
      | (None, s1) \<Rightarrow>
          (None,
           if track_kind (tracks s1 i) = ''video''
           then setActiveCamera
                  (Some (LocalTrack (TrackObject i) (StringValue ''video'') (StringValue ''input''))) s1
           else s1))"

fun forEachTrack ::
  "(track_ref \<Rightarrow> provider \<Rightarrow> js_error option \<times> provider) \<Rightarrow> track_ref list \<Rightarrow> provider
     \<Rightarrow> js_error option \<times> provider" where
  "forEachTrack f [] s = (None, s)"
| "forEachTrack f (i # ids) s =
     (case f i s of
        (Some e, s1) \<Rightarrow> (Some e, s1)
      | (None, s1) \<Rightarrow> forEachTrack f ids s1)"

text \<open>
  \<open>requestPermissionAndStartDevices\<close>: everything is inside the \<open>try\<close>, so that whatever is
  thrown, also by the body of the \<open>forEach\<close>, ends in the \<open>catch\<close> and stores the message.
\<close>

definition requestPermissionAndStartDevices ::
  "navigator \<Rightarrow> user_media \<Rightarrow> string option \<Rightarrow> string option \<Rightarrow> provider
     \<Rightarrow> js_error option \<times> provider" where
  "requestPermissionAndStartDevices nav gum microphoneId cameraId s =
     (if nav \<noteq> HasGetUserMedia then (None, setUserMediaError userMediaErrorMessage s)
      else
        let constraints = startConstraints microphoneId cameraId s;
            s1 = emit (EvNavGetUserMedia constraints)
                   (s\<lparr>defaultMicrophoneCameraOptions := constraints\<rparr>)
        in case gum constraints of
             Inl e \<Rightarrow> (None, setUserMediaError userMediaErrorMessage s1)
           | Inr stream \<Rightarrow>
               (case newTracks stream s1 of (ids, s2) \<Rightarrow>
                  (case forEachTrack startTrack ids s2 of
                     (Some e, s3) \<Rightarrow> (None, setUserMediaError userMediaErrorMessage s3)
                   | (None, s3) \<Rightarrow> (None, s3))))"

definition cameraConstraints :: "string \<Rightarrow> media_options" where
  "cameraConstraints deviceId = \<lparr>opt_audio = CFalse, opt_video = CObj (Some deviceId) False\<rparr>"

definition microphoneConstraints :: "string \<Rightarrow> media_options" where
  "microphoneConstraints deviceId = \<lparr>opt_audio = CObj (Some deviceId) True, opt_video = CFalse\<rparr>"

text \<open>
  \<open>getCamera\<close> and \<open>getMicrophone\<close> call the SDK's \<open>getUserMedia\<close> and have no \<open>try\<close>: a rejected
  acquisition is the outcome of the operation. A granted one hands over its tracks, live, and
  resolves with an array of handles, not with a \<open>MediaStream\<close>: \<open>stream.getVideoTracks\<close> (and
  \<open>stream.getAudioTracks\<close>) is not a function, the call at the next line throws a \<open>TypeError\<close>,
  and the lines after it, which would build and install the handle, are not reached.
\<close>

definition getCamera ::
  "string \<Rightarrow> user_media \<Rightarrow> provider \<Rightarrow> (js_error + local_track) \<times> provider" where
  "getCamera deviceId gum s =
     (let constraints = cameraConstraints deviceId;
          s1 = emit (EvSdkGetUserMedia constraints) s
      in case gum constraints of
           Inl e \<Rightarrow> (Inl e, s1)
         | Inr stream \<Rightarrow>
             (case newTracks stream s1 of (ids, s2) \<Rightarrow> (Inl TypeError, s2)))"

definition getMicrophone ::
  "string \<Rightarrow> user_media \<Rightarrow> provider \<Rightarrow> (js_error + local_track) \<times> provider" where
  "getMicrophone deviceId gum s =
     (let constraints = microphoneConstraints deviceId;
          s1 = emit (EvSdkGetUserMedia constraints) s
      in case gum constraints of
           Inl e \<Rightarrow> (Inl e, s1)
         | Inr stream \<Rightarrow>
             (case newTracks stream s1 of (ids, s2) \<Rightarrow> (Inl TypeError, s2)))"

text \<open>
  \<open>changeActiveCamera\<close> and \<open>changeActiveMicrophone\<close> stop first, before the \<open>await\<close>; what the
  stop throws is the outcome, and nothing is acquired then.
\<close>

definition changeActiveCamera ::
  "string \<Rightarrow> user_media \<Rightarrow> provider \<Rightarrow> provider \<Rightarrow> (js_error + local_track) \<times> provider" where
  "changeActiveCamera deviceId gum r s =
     (case stopActiveCamera r s of
        (Some e, s1) \<Rightarrow> (Inl e, s1)
      | (None, s1) \<Rightarrow> getCamera deviceId gum s1)"

definition changeActiveMicrophone ::
  "string \<Rightarrow> user_media \<Rightarrow> provider \<Rightarrow> provider \<Rightarrow> (js_error + local_track) \<times> provider" where
  "changeActiveMicrophone deviceId gum r s =
     (case activeMicrophone r of
        None \<Rightarrow> getMicrophone deviceId gum s
      | Some m \<Rightarrow>
          (case localTrackStop m s of
             (Some e, s1) \<Rightarrow> (Inl e, s1)
           | (None, s1) \<Rightarrow> getMicrophone deviceId gum s1))"

subsection \<open>Level metering\<close>

text \<open>
  A JavaScript number as far as the metering needs it: a real value, \<open>NaN\<close> (from \<open>0 / 0\<close>)
  or \<open>-Infinity\<close> (from \<open>Math.max()\<close> of nothing). Rounding to a double is not modelled.
\<close>

datatype js_number = Finite real | NaN | NegInfinity

record level =
  avgDb :: js_number
  peakDb :: js_number

text \<open>
  \<open>getByteFrequencyData\<close> fills a \<open>Uint8Array\<close> of \<open>frequencyBinCount\<close> bytes; what the
  analyser measures in each bin is the browser's.
\<close>

definition getByteFrequencyData :: "(nat \<Rightarrow> 8 word) \<Rightarrow> analyser_node \<Rightarrow> 8 word list" where
  "getByteFrequencyData bins an = map bins [0..<frequencyBinCount an]"

definition js_div :: "real \<Rightarrow> nat \<Rightarrow> js_number" where
  "js_div a n = (if n = 0 then NaN else Finite (a / real n))"

definition math_max :: "real list \<Rightarrow> js_number" where
  "math_max vs = (case vs of [] \<Rightarrow> NegInfinity | v # rest \<Rightarrow> Finite (fold max rest v))"

definition getActiveMicrophoneLevel :: "(nat \<Rightarrow> 8 word) \<Rightarrow> provider \<Rightarrow> level option" where
  "getActiveMicrophoneLevel bins s =
     (case activeMicrophone s of
        None \<Rightarrow> None
      | Some m \<Rightarrow>
          (case localAudioAnalyser s of
             None \<Rightarrow> None
           | Some an \<Rightarrow>
               let dataArray = getByteFrequencyData bins an;
                   vals = map (\<lambda>b. real (unat b)) dataArray
               in Some \<lparr>avgDb = js_div (fold (\<lambda>b a. a + b) vals 0) (length vals),
                        peakDb = math_max vals\<rparr>))"

subsection \<open>Live tracks\<close>

text \<open>The tracks of one kind that the browser has created and that are still live.\<close>

definition liveTracks :: "string \<Rightarrow> provider \<Rightarrow> track_ref list" where
  "liveTracks k s =
     filter (\<lambda>i. track_live (tracks s i) \<and> track_kind (tracks s i) = k) [0..<next_track s]"

text \<open>
  The tracks of one kind among those an answer of the browser hands over, the first of them
  being track \<open>n\<close>; none when the request is rejected.
\<close>

definition acquired :: "string \<Rightarrow> js_error + track_init list \<Rightarrow> nat \<Rightarrow> track_ref list" where
  "acquired k answer n =
     (case answer of
        Inl e \<Rightarrow> []
      | Inr stream \<Rightarrow> filter (\<lambda>i. fst (stream ! (i - n)) = k) [n..<n + length stream])"

section \<open>The layout component: GalleryLayout\<close>

subsection \<open>React nodes\<close>

datatype prop_value = PNum real | PStr string

record react_element =
  el_type :: string
  el_props :: "string \<rightharpoonup> prop_value"

datatype react_node =
    Element react_element
  | Text string
  | Number real
  | Boolean bool
  | Null
  | Undefined
  | Array "react_node list"

text \<open>\<open>if (children)\<close>: JavaScript truthiness. An array is truthy, also an empty one.\<close>

fun truthy :: "react_node \<Rightarrow> bool" where
  "truthy (Element e) = True"
| "truthy (Text t) = (t \<noteq> [])"
| "truthy (Number x) = (x \<noteq> 0)"
| "truthy (Boolean b) = b"
| "truthy Null = False"
| "truthy Undefined = False"
| "truthy (Array cs) = True"

text \<open>
  The nodes \<open>Children.map\<close> and \<open>Children.count\<close> visit: arrays are traversed, every other
  node is one child, and an empty node (\<open>null\<close>, \<open>undefined\<close>, a Boolean) is visited as \<open>null\<close>.
\<close>

fun childNodes :: "react_node \<Rightarrow> react_node list" where
  "childNodes (Array cs) = concat (map childNodes cs)"
| "childNodes (Boolean b) = [Null]"
| "childNodes Undefined = [Null]"
| "childNodes n = [n]"

fun nullish :: "react_node \<Rightarrow> bool" where
  "nullish Null = True"
| "nullish Undefined = True"
| "nullish n = False"

definition Children_count :: "react_node \<Rightarrow> nat" where
  "Children_count children = (if nullish children then 0 else length (childNodes children))"

text \<open>
  \<open>Children.map\<close> returns \<open>null\<close> or \<open>undefined\<close> as it is; otherwise the array of the results
  that are neither. The keys React assigns to the results are not modelled.
\<close>

definition Children_map :: "(react_node \<Rightarrow> react_node) \<Rightarrow> react_node \<Rightarrow> react_node" where
  "Children_map f children =
     (if nullish children then children
      else Array (filter (\<lambda>n. \<not> nullish n) (map f (childNodes children))))"

fun isValidElement :: "react_node \<Rightarrow> bool" where
  "isValidElement (Element e) = True"
| "isValidElement n = False"

text \<open>\<open>cloneElement(child, props)\<close>: the same element with the given props written over its own.\<close>

fun cloneElement :: "react_node \<Rightarrow> (string \<times> prop_value) list \<Rightarrow> react_node" where
  "cloneElement (Element e) ps = Element (e\<lparr>el_props := el_props e ++ map_of ps\<rparr>)"
| "cloneElement n ps = n"

subsection \<open>The component\<close>

record box =
  box_width :: real
  box_height :: real

text \<open>
  The helper of lib/gallery as \<open>GalleryLayout\<close> sees it: from width, height, number of boxes,
  aspect ratio and gap to a fit, or to nothing.
\<close>

type_synonym optimal_boxes = "real \<Rightarrow> real \<Rightarrow> nat \<Rightarrow> real \<Rightarrow> real \<Rightarrow> box option"

text \<open>The parameter default \<open>gap = 10\<close>.\<close>

definition gapOf :: "real option \<Rightarrow> real" where
  "gapOf gap = (case gap of None \<Rightarrow> 10 | Some g \<Rightarrow> g)"

text \<open>The \<open>useMemo\<close> body: the arguments of the call to the helper, when the call is made.\<close>

definition bestFitCall ::
  "react_node \<Rightarrow> real \<Rightarrow> real \<Rightarrow> real option \<Rightarrow> (real \<times> real \<times> nat \<times> real \<times> real) option" where
  "bestFitCall children width height gap =
     (if truthy children
      then Some (width, height, Children_count children, 16 / 9, gapOf gap)
      else None)"

definition bestFit ::
  "optimal_boxes \<Rightarrow> react_node \<Rightarrow> real \<Rightarrow> real \<Rightarrow> real option \<Rightarrow> box option" where
  "bestFit calc children width height gap =
     (case bestFitCall children width height gap of
        None \<Rightarrow> None
      | Some (w, h, n, ratio, g) \<Rightarrow> calc w h n ratio g)"

text \<open>The children \<open>GalleryLayout\<close> renders inside its \<open>Flex\<close> container.\<close>

definition GalleryLayout ::
  "optimal_boxes \<Rightarrow> react_node \<Rightarrow> real \<Rightarrow> real \<Rightarrow> real option \<Rightarrow> react_node" where
  "GalleryLayout calc children width height gap =
     (let fit = bestFit calc children width height gap
      in Children_map
           (\<lambda>child.
              case fit of
                None \<Rightarrow> child
              | Some b \<Rightarrow>
                  if isValidElement child \<and> box_width b \<noteq> 0 \<and> box_height b \<noteq> 0
                  then cloneElement child
                         [(''width'', PNum (box_width b)), (''height'', PNum (box_height b))]
                  else child)
           children)"

subsection \<open>The helper\<close>

text \<open>
  Modelled from the spec: \<open>calcOptimalBoxes\<close> of lib/gallery, which \<open>GalleryLayout\<close> imports and
  which is not among the sources. The spec has it compute "a near-optimal grid of equally
  sized boxes at a fixed aspect ratio", "box dimensions that best fill the viewport while
  preserving aspect ratio", with "no failure modes beyond absence of a fit". So: for every
  number of columns from one to the number of boxes, the rows that many columns need and the
  largest box of the aspect ratio for which the grid, gaps included, fits the viewport; the
  result is the candidate of largest area among those with positive sides, and nothing
  when there is none.
\<close>

definition gridBox :: "real \<Rightarrow> real \<Rightarrow> nat \<Rightarrow> real \<Rightarrow> real \<Rightarrow> nat \<Rightarrow> box" where
  "gridBox width height numBoxes aspectRatio gap cols =
     (let rows = (numBoxes + cols - 1) div cols;
          cellWidth = (width - gap * real (cols - 1)) / real cols;
          cellHeight = (height - gap * real (rows - 1)) / real rows;
          w = min cellWidth (cellHeight * aspectRatio)
      in \<lparr>box_width = w, box_height = w / aspectRatio\<rparr>)"

text \<open>
  Modelled from the spec: "best fill the viewport" is read as the larger area; \<open>larger c best\<close>
  keeps the best candidate so far unless \<open>c\<close> has more area.
\<close>

definition larger :: "box \<Rightarrow> box \<Rightarrow> box" where
  "larger c best =
     (if box_width best * box_height best < box_width c * box_height c then c else best)"

text \<open>
  Modelled from the spec: \<open>calcOptimalBoxes\<close> itself, the best of the candidates with positive
  sides over all numbers of columns, and no result in the "absence of a fit".
\<close>

definition calcOptimalBoxes :: optimal_boxes where
  "calcOptimalBoxes width height numBoxes aspectRatio gap =
     (case filter (\<lambda>b. 0 < box_width b \<and> 0 < box_height b)
             (map (gridBox width height numBoxes aspectRatio gap) [1..<Suc numBoxes]) of
        [] \<Rightarrow> None
      | b # bs \<Rightarrow> Some (fold larger bs b))"

section \<open>Notions the properties are stated with\<close>

text \<open>
  Browsers: one that answers with a camera track, one with a microphone and a camera, one
  with the camera first, and one that denies every request; and what the second enumerates.
\<close>

definition oneCamera :: user_media where
  "oneCamera = (\<lambda>c. Inr [(''video'', ''cam1'')])"

definition bothDevices :: user_media where
  "bothDevices = (\<lambda>c. Inr [(''audio'', ''mic1''), (''video'', ''cam1'')])"

definition cameraFirst :: user_media where
  "cameraFirst = (\<lambda>c. Inr [(''video'', ''cam1''), (''audio'', ''mic1'')])"

definition denied :: user_media where
  "denied = (\<lambda>c. Inl (DOMException ''NotAllowedError''))"

definition threeDevices :: "device_info list" where
  "threeDevices =
     [\<lparr>dev_kind = ''audioinput'', dev_deviceId = ''mic1'', dev_label = ''Microphone''\<rparr>,
      \<lparr>dev_kind = ''videoinput'', dev_deviceId = ''cam1'', dev_label = ''Camera''\<rparr>,
      \<lparr>dev_kind = ''audiooutput'', dev_deviceId = ''spk1'', dev_label = ''Speakers''\<rparr>]"

text \<open>
  The state after \<open>requestPermissionAndStartDevices\<close> at mount, with the camera first in the
  stream (the camera on track 0 is active) and with the microphone first (the microphone on
  track 0 is active).
\<close>

definition cameraStarted :: provider where
  "cameraStarted =
     snd (requestPermissionAndStartDevices HasGetUserMedia cameraFirst None None (mount None None))"

definition microphoneStarted :: provider where
  "microphoneStarted =
     snd (requestPermissionAndStartDevices HasGetUserMedia bothDevices None None (mount None None))"

text \<open>
  \<open>added s s'\<close> is what an operation that led from \<open>s\<close> to \<open>s'\<close> added to the record of calls;
  \<open>isStop\<close> holds of the two kinds of stop.
\<close>

definition added :: "provider \<Rightarrow> provider \<Rightarrow> event list" where
  "added s s' = drop (length (trace s)) (trace s')"

fun isStop :: "event \<Rightarrow> bool" where
  "isStop (EvTrackStop i) = True"
| "isStop (EvLocalTrackStop h) = True"
| "isStop e = False"

text \<open>A state with an active microphone and an analyser of sixteen bins, and a reading of
  the bins: 160 in the first, 0 in the others.\<close>

definition metered :: provider where
  "metered =
     (mount None None)
       \<lparr>activeMicrophone :=
          Some (LocalTrack (TrackObject 0) (StringValue ''audio'') (StringValue ''input'')),
        localAudioAnalyser := Some \<lparr>an_source = 0, fftSize = 32\<rparr>\<rparr>"

definition oneTone :: "nat \<Rightarrow> 8 word" where
  "oneTone i = (if i = 0 then 160 else 0)"

subsection \<open>Notions the layout properties are stated with\<close>

text \<open>A node with the two sizes written into its props, when it is an element.\<close>

definition withSize :: "real \<Rightarrow> real \<Rightarrow> react_node \<Rightarrow> react_node" where
  "withSize bw bh child =
     (case child of
        Element e \<Rightarrow>
          Element (e\<lparr>el_props := (el_props e)(''height'' \<mapsto> PNum bh, ''width'' \<mapsto> PNum bw)\<rparr>)
      | _ \<Rightarrow> child)"

text \<open>Three children: a tile, a text and an empty node; a helper that always answers 100 by 50,
  one that never fits, and one whose answer shows every argument it was given.\<close>

definition tiles :: react_node where
  "tiles = Array [Element \<lparr>el_type = ''Tile'', el_props = Map.empty\<rparr>, Text ''x'', Null]"

definition fixedFit :: optimal_boxes where
  "fixedFit w h n ratio gap = Some \<lparr>box_width = 100, box_height = 50\<rparr>"

definition noFit :: optimal_boxes where
  "noFit w h n ratio gap = None"

definition probe :: optimal_boxes where
  "probe w h n ratio gap = Some \<lparr>box_width = w + 2 * real n + 3 * gap, box_height = h + ratio\<rparr>"

section \<open>Properties of the device-management context\<close>

lemmas setters = emit_def setActiveCamera_def setActiveMicrophone_def setLocalAudioAnalyser_def
  setMicrophoneDevices_def setCameraDevices_def setUserMediaError_def setCameraDeviceId_def
  setMicrophoneDeviceId_def stopTrack_def setEnabled_def setupLocalMicrophoneAnalyser_def
  localTrackStop_def setTrackEnabled_def LocalTrack_def

lemma newTracks_Cons:
  "newTracks (t # ts) s =
     (let s' = s\<lparr>tracks := (tracks s)(next_track s := \<lparr>track_kind = fst t, track_device = snd t,
                                           track_enabled = True, track_live = True\<rparr>),
                next_track := Suc (next_track s)\<rparr>
      in (next_track s # fst (newTracks ts s'), snd (newTracks ts s')))"
  by (cases t) (simp add: Let_def split_beta)

lemma newTracks_frame:
  "(snd (newTracks ts s))\<lparr>tracks := T, next_track := N\<rparr> = s\<lparr>tracks := T, next_track := N\<rparr>"
  by (induction ts arbitrary: s) (simp_all add: newTracks_Cons Let_def)

lemma newTracks_keeps:
  assumes "\<And>x T N. f (x\<lparr>tracks := T, next_track := N\<rparr>) = f x"
  shows "f (snd (newTracks ts s)) = f s"
  by (metis assms newTracks_frame)

lemma newTracks_fields [simp]:
  "microphoneDevices (snd (newTracks ts s)) = microphoneDevices s"
  "activeMicrophone (snd (newTracks ts s)) = activeMicrophone s"
  "cameraDevices (snd (newTracks ts s)) = cameraDevices s"
  "activeCamera (snd (newTracks ts s)) = activeCamera s"
  "localAudioAnalyser (snd (newTracks ts s)) = localAudioAnalyser s"
  "userMediaError (snd (newTracks ts s)) = userMediaError s"
  "cameraDeviceId (snd (newTracks ts s)) = cameraDeviceId s"
  "microphoneDeviceId (snd (newTracks ts s)) = microphoneDeviceId s"
  "defaultMicrophoneCameraOptions (snd (newTracks ts s)) = defaultMicrophoneCameraOptions s"
  "trace (snd (newTracks ts s)) = trace s"
  by (rule newTracks_keeps, simp)+

lemma newTracks_next [simp]: "next_track (snd (newTracks ts s)) = next_track s + length ts"
  by (induction ts arbitrary: s) (simp_all add: newTracks_Cons Let_def)

lemma newTracks_ids [simp]: "fst (newTracks ts s) = [next_track s..<next_track s + length ts]"
  by (induction ts arbitrary: s) (simp_all add: newTracks_Cons Let_def upt_rec)

lemma newTracks_old [simp]: "i < next_track s \<Longrightarrow> tracks (snd (newTracks ts s)) i = tracks s i"
  by (induction ts arbitrary: s) (simp_all add: newTracks_Cons Let_def)

lemma newTracks_new:
  "j < length ts \<Longrightarrow>
   tracks (snd (newTracks ts s)) (next_track s + j) =
     \<lparr>track_kind = fst (ts ! j), track_device = snd (ts ! j),
      track_enabled = True, track_live = True\<rparr>"
proof (induction ts arbitrary: s j)
  case Nil
  then show ?case by simp
next
  case (Cons t ts)
  let ?s' = "s\<lparr>tracks := (tracks s)(next_track s := \<lparr>track_kind = fst t, track_device = snd t,
                 track_enabled = True, track_live = True\<rparr>), next_track := Suc (next_track s)\<rparr>"
  have unfold: "snd (newTracks (t # ts) s) = snd (newTracks ts ?s')"
    by (simp add: newTracks_Cons Let_def)
  show ?case
  proof (cases j)
    case 0
    have "tracks (snd (newTracks ts ?s')) (next_track s) = tracks ?s' (next_track s)"
      by (rule newTracks_old) simp
    then show ?thesis by (simp add: unfold 0)
  next
    case (Suc j')
    with Cons.prems have "j' < length ts" by simp
    from Cons.IH [OF this, of ?s'] show ?thesis by (simp add: unfold Suc)
  qed
qed

lemma fold_stopTrack_frame:
  "(fold stopTrack ids s)\<lparr>tracks := T, trace := E\<rparr> = s\<lparr>tracks := T, trace := E\<rparr>"
  by (induction ids arbitrary: s) (auto simp: setters)

lemma fold_stopTrack_keeps:
  assumes "\<And>x T E. f (x\<lparr>tracks := T, trace := E\<rparr>) = f x"
  shows "f (fold stopTrack ids s) = f s"
  by (metis assms fold_stopTrack_frame)

lemma fold_stopTrack_fields [simp]:
  "microphoneDevices (fold stopTrack ids s) = microphoneDevices s"
  "activeMicrophone (fold stopTrack ids s) = activeMicrophone s"
  "cameraDevices (fold stopTrack ids s) = cameraDevices s"
  "activeCamera (fold stopTrack ids s) = activeCamera s"
  "userMediaError (fold stopTrack ids s) = userMediaError s"
  "next_track (fold stopTrack ids s) = next_track s"
  by (rule fold_stopTrack_keeps, simp)+

lemma fold_stopTrack_trace [simp]:
  "trace (fold stopTrack ids s) = trace s @ map EvTrackStop ids"
  by (induction ids arbitrary: s) (auto simp: setters)

lemma fold_stopTrack_tracks [simp]:
  "tracks (fold stopTrack ids s) i =
     (if i \<in> set ids then (tracks s i)\<lparr>track_live := False\<rparr> else tracks s i)"
  by (induction ids arbitrary: s) (auto simp: setters)


lemma startTrack_frame:
  "(snd (startTrack i s))\<lparr>activeCamera := A, activeMicrophone := M, localAudioAnalyser := L,
       trace := E\<rparr> =
   s\<lparr>activeCamera := A, activeMicrophone := M, localAudioAnalyser := L, trace := E\<rparr>"
  by (simp add: startTrack_def setters Let_def)

lemma forEach_startTrack_frame:
  "(snd (forEachTrack startTrack ids s))\<lparr>activeCamera := A, activeMicrophone := M,
       localAudioAnalyser := L, trace := E\<rparr> =
   s\<lparr>activeCamera := A, activeMicrophone := M, localAudioAnalyser := L, trace := E\<rparr>"
proof (induction ids arbitrary: s)
  case Nil
  show ?case by simp
next
  case (Cons i ids)
  show ?case
  proof (cases "fst (startTrack i s)")
    case None
    then have "forEachTrack startTrack (i # ids) s = forEachTrack startTrack ids (snd (startTrack i s))"
      by (simp add: split_beta)
    with Cons.IH [of "snd (startTrack i s)"] startTrack_frame [where i = i and s = s]
    show ?thesis by simp
  next
    case (Some e)
    then have "snd (forEachTrack startTrack (i # ids) s) = snd (startTrack i s)"
      by (simp add: split_beta)
    with startTrack_frame [where i = i and s = s] show ?thesis by simp
  qed
qed

lemma forEach_startTrack_keeps:
  assumes "\<And>x A M L E. f (x\<lparr>activeCamera := A, activeMicrophone := M, localAudioAnalyser := L,
                              trace := E\<rparr>) = f x"
  shows "f (snd (forEachTrack startTrack ids s)) = f s"
  by (metis assms forEach_startTrack_frame)

lemma forEach_startTrack_fields [simp]:
  "userMediaError (snd (forEachTrack startTrack ids s)) = userMediaError s"
  "tracks (snd (forEachTrack startTrack ids s)) = tracks s"
  "next_track (snd (forEachTrack startTrack ids s)) = next_track s"
  by (rule forEach_startTrack_keeps, simp)+

lemma startTrack_trace:
  "\<exists>evs. trace (snd (startTrack i s)) = trace s @ evs \<and> list_all (\<lambda>e. \<not> isStop e) evs"
  by (simp add: startTrack_def setters Let_def)

lemma forEach_startTrack_trace:
  "\<exists>evs. trace (snd (forEachTrack startTrack ids s)) = trace s @ evs \<and>
         list_all (\<lambda>e. \<not> isStop e) evs"
proof (induction ids arbitrary: s)
  case Nil
  show ?case by simp
next
  case (Cons i ids)
  from startTrack_trace obtain e1 where
    e1: "trace (snd (startTrack i s)) = trace s @ e1" "list_all (\<lambda>e. \<not> isStop e) e1"
    by blast
  show ?case
  proof (cases "fst (startTrack i s)")
    case None
    then have u: "forEachTrack startTrack (i # ids) s =
                    forEachTrack startTrack ids (snd (startTrack i s))"
      by (simp add: split_beta)
    from Cons.IH [of "snd (startTrack i s)"] obtain e2 where
      "trace (snd (forEachTrack startTrack ids (snd (startTrack i s)))) =
         trace (snd (startTrack i s)) @ e2" "list_all (\<lambda>e. \<not> isStop e) e2"
      by blast
    with e1 u have "trace (snd (forEachTrack startTrack (i # ids) s)) = trace s @ (e1 @ e2) \<and>
                    list_all (\<lambda>e. \<not> isStop e) (e1 @ e2)"
      by simp
    then show ?thesis by blast
  next
    case (Some e)
    then have "snd (forEachTrack startTrack (i # ids) s) = snd (startTrack i s)"
      by (simp add: split_beta)
    with e1 show ?thesis by auto
  qed
qed

lemma added_append [simp]: "trace s' = trace s @ evs \<Longrightarrow> added s s' = evs"
  by (simp add: added_def)

subsection \<open>C1: stopping the previous camera\<close>

text \<open>
  C1, as amended. \<open>changeActiveCamera\<close> begins by calling \<open>stop\<close> on the active camera, when
  there is one: that call is the first thing it does, before any request for a camera and
  before any camera is installed. \<open>getCamera\<close> and \<open>requestPermissionAndStartDevices\<close> call no
  \<open>stop\<close>, on a handle or on a track, and leave every track that exists as it is;
  \<open>requestPermissionAndStartDevices\<close>, granted a stream with a video track in the first place
  (alone or followed by an audio track), installs that track as the active camera, whether
  or not a camera was active.
\<close>

theorem changeActiveCamera_calls_stop_first:
  "(\<forall>c. activeCamera r = Some c \<longrightarrow>
      take 1 (added s (snd (changeActiveCamera d gum r s))) = [EvLocalTrackStop c]) \<and>
   list_all (\<lambda>e. \<not> isStop e) (added s (snd (getCamera d gum s))) \<and>
   (\<forall>i<next_track s. tracks (snd (getCamera d gum s)) i = tracks s i) \<and>
   list_all (\<lambda>e. \<not> isStop e)
     (added s (snd (requestPermissionAndStartDevices nav gum' microphoneId cameraId s))) \<and>
   (\<forall>i<next_track s.
      tracks (snd (requestPermissionAndStartDevices nav gum' microphoneId cameraId s)) i =
        tracks s i) \<and>
   (\<forall>stream. nav = HasGetUserMedia \<and>
        gum' (startConstraints microphoneId cameraId s) = Inr stream \<and>
        map fst stream \<in> set [[''video''], [''video'', ''audio'']] \<longrightarrow>
      activeCamera (snd (requestPermissionAndStartDevices nav gum' microphoneId cameraId s)) =
        Some (LocalTrack (TrackObject (next_track s)) (StringValue ''video'')
                (StringValue ''input'')))"
proof (intro conjI allI impI)
  fix c
  assume c: "activeCamera r = Some c"
  have g: "\<exists>evs. trace (snd (getCamera d gum x)) = trace x @ evs" for x
    by (simp add: getCamera_def Let_def split_beta emit_def split: sum.splits)
  show "take 1 (added s (snd (changeActiveCamera d gum r s))) = [EvLocalTrackStop c]"
  proof (cases "lt_track c")
    case (StringValue x)
    with c show ?thesis
      by (simp add: changeActiveCamera_def stopActiveCamera_def localTrackStop_def Let_def
          emit_def added_def)
  next
    case (TrackObject i)
    let ?s1 = "setActiveCamera None (stopTrack i (emit (EvLocalTrackStop c) s))"
    from g [of ?s1] obtain evs where "trace (snd (getCamera d gum ?s1)) = trace ?s1 @ evs" ..
    with c TrackObject show ?thesis
      by (simp add: changeActiveCamera_def stopActiveCamera_def localTrackStop_def Let_def
          setActiveCamera_def stopTrack_def emit_def added_def)
  qed
next
  show "list_all (\<lambda>e. \<not> isStop e) (added s (snd (getCamera d gum s)))"
    by (simp add: getCamera_def Let_def split_beta emit_def added_def split: sum.splits)
next
  fix i
  assume "i < next_track s"
  then show "tracks (snd (getCamera d gum s)) i = tracks s i"
    by (simp add: getCamera_def Let_def split_beta emit_def split: sum.splits)
next
  let ?c = "startConstraints microphoneId cameraId s"
  let ?s1 = "emit (EvNavGetUserMedia ?c) (s\<lparr>defaultMicrophoneCameraOptions := ?c\<rparr>)"
  have *: "list_all (\<lambda>e. \<not> isStop e)
             (drop (length (trace s))
                (trace (snd (forEachTrack startTrack ids (snd (newTracks stream ?s1))))))" and
    **: "list_all (\<lambda>e. \<not> isStop e)
             (drop (length (trace s))
                (trace (setUserMediaError m
                         (snd (forEachTrack startTrack ids (snd (newTracks stream ?s1)))))))"
    for ids stream m
  proof -
    from forEach_startTrack_trace [of ids "snd (newTracks stream ?s1)"] obtain evs where
      "trace (snd (forEachTrack startTrack ids (snd (newTracks stream ?s1)))) =
         trace (snd (newTracks stream ?s1)) @ evs" "list_all (\<lambda>e. \<not> isStop e) evs"
      by blast
    then show "list_all (\<lambda>e. \<not> isStop e)
             (drop (length (trace s))
                (trace (snd (forEachTrack startTrack ids (snd (newTracks stream ?s1))))))"
      and "list_all (\<lambda>e. \<not> isStop e)
             (drop (length (trace s))
                (trace (setUserMediaError m
                         (snd (forEachTrack startTrack ids (snd (newTracks stream ?s1)))))))"
      by (simp_all add: emit_def setUserMediaError_def)
  qed
  show "list_all (\<lambda>e. \<not> isStop e)
     (added s (snd (requestPermissionAndStartDevices nav gum' microphoneId cameraId s)))"
    using * **
    by (simp add: requestPermissionAndStartDevices_def Let_def split_beta added_def
        setUserMediaError_def emit_def split: sum.splits option.splits)
next
  fix i
  assume "i < next_track s"
  then show "tracks (snd (requestPermissionAndStartDevices nav gum' microphoneId cameraId s)) i =
        tracks s i"
    by (simp add: requestPermissionAndStartDevices_def Let_def split_beta
        setUserMediaError_def emit_def split: sum.splits option.splits)
next
  fix stream
  assume a: "nav = HasGetUserMedia \<and>
        gum' (startConstraints microphoneId cameraId s) = Inr stream \<and>
        map fst stream \<in> set [[''video''], [''video'', ''audio'']]"
  then consider v where "stream = [(''video'', v)]"
    | v a where "stream = [(''video'', v), (''audio'', a)]"
    by (auto simp: map_eq_Cons_conv)
  then show "activeCamera (snd (requestPermissionAndStartDevices nav gum' microphoneId cameraId s)) =
        Some (LocalTrack (TrackObject (next_track s)) (StringValue ''video'')
                (StringValue ''input''))"
  proof cases
    case 1
    with a show ?thesis
      by (simp add: requestPermissionAndStartDevices_def Let_def startTrack_def setters)
  next
    case 2
    with a show ?thesis
      by (simp add: requestPermissionAndStartDevices_def Let_def startTrack_def setters)
  qed
qed

text \<open>
  The claim as stated fails for \<open>requestPermissionAndStartDevices\<close>: called while the camera on
  track 0 is active, it installs the camera on track 2; no \<open>stop\<close> is called, on the previous
  handle or on its track, and track 0 is still live afterwards.
\<close>

theorem requestPermissionAndStartDevices_keeps_previous_running:
  "activeCamera cameraStarted =
     Some (LocalTrack (TrackObject 0) (StringValue ''video'') (StringValue ''input'')) \<and>
   activeCamera
     (snd (requestPermissionAndStartDevices HasGetUserMedia cameraFirst None None cameraStarted)) =
     Some (LocalTrack (TrackObject 2) (StringValue ''video'') (StringValue ''input'')) \<and>
   EvLocalTrackStop (LocalTrack (TrackObject 0) (StringValue ''video'') (StringValue ''input''))
     \<notin> set (added cameraStarted
              (snd (requestPermissionAndStartDevices HasGetUserMedia cameraFirst None None
                      cameraStarted))) \<and>
   EvTrackStop 0
     \<notin> set (added cameraStarted
              (snd (requestPermissionAndStartDevices HasGetUserMedia cameraFirst None None
                      cameraStarted))) \<and>
   track_live
     (tracks (snd (requestPermissionAndStartDevices HasGetUserMedia cameraFirst None None
                     cameraStarted)) 0)"
  by (simp add: cameraStarted_def requestPermissionAndStartDevices_def startConstraints_def
      truthyId_def cameraFirst_def mount_def startTrack_def setters Let_def added_def)

text \<open>With the camera on track 0 active: \<open>changeActiveCamera\<close> calls its \<open>stop\<close> first, and
  \<open>requestPermissionAndStartDevices\<close> installs the camera on track 2.\<close>

theorem changeActiveCamera_calls_stop_first_witness:
  "activeCamera cameraStarted =
     Some (LocalTrack (TrackObject 0) (StringValue ''video'') (StringValue ''input'')) \<and>
   take 1 (added cameraStarted
             (snd (changeActiveCamera ''cam2'' oneCamera cameraStarted cameraStarted))) =
     [EvLocalTrackStop (LocalTrack (TrackObject 0) (StringValue ''video'') (StringValue ''input''))] \<and>
   next_track cameraStarted = 2 \<and>
   activeCamera
     (snd (requestPermissionAndStartDevices HasGetUserMedia cameraFirst None None cameraStarted)) =
     Some (LocalTrack (TrackObject 2) (StringValue ''video'') (StringValue ''input'')) \<and>
   tracks (snd (requestPermissionAndStartDevices HasGetUserMedia cameraFirst None None
                  cameraStarted)) 0 = tracks cameraStarted 0"
proof -
  let ?h = "LocalTrack (TrackObject 0) (StringValue ''video'') (StringValue ''input'')"
  note t = changeActiveCamera_calls_stop_first
    [of cameraStarted cameraStarted "''cam2''" oneCamera HasGetUserMedia cameraFirst None None]
  have h1: "activeCamera cameraStarted = Some ?h"
    by (simp add: cameraStarted_def requestPermissionAndStartDevices_def startConstraints_def
        truthyId_def cameraFirst_def mount_def startTrack_def setters Let_def)
  have h2: "next_track cameraStarted = 2"
    by (simp add: cameraStarted_def requestPermissionAndStartDevices_def startConstraints_def
        truthyId_def cameraFirst_def mount_def startTrack_def setters Let_def)
  have h3: "cameraFirst (startConstraints None None cameraStarted) =
              Inr [(''video'', ''cam1''), (''audio'', ''mic1'')]"
    by (simp add: cameraFirst_def)
  from t h1 have a: "take 1 (added cameraStarted
             (snd (changeActiveCamera ''cam2'' oneCamera cameraStarted cameraStarted))) =
     [EvLocalTrackStop ?h]"
    by blast
  from t h3 have "activeCamera
     (snd (requestPermissionAndStartDevices HasGetUserMedia cameraFirst None None cameraStarted)) =
     Some (LocalTrack (TrackObject (next_track cameraStarted)) (StringValue ''video'')
             (StringValue ''input''))"
    by simp
  then have b: "activeCamera
     (snd (requestPermissionAndStartDevices HasGetUserMedia cameraFirst None None cameraStarted)) =
     Some (LocalTrack (TrackObject 2) (StringValue ''video'') (StringValue ''input''))"
    by (simp add: h2)
  from t h2 have c: "tracks (snd (requestPermissionAndStartDevices HasGetUserMedia cameraFirst
                  None None cameraStarted)) 0 = tracks cameraStarted 0"
    by simp
  from h1 a h2 b c show ?thesis by blast
qed

subsection \<open>C10: stopActiveCamera\<close>

text \<open>
  C10 fails on the code. The active camera the provider holds is a handle it built itself,
  whose \<open>.track\<close> is a string: with that camera active, \<open>stop()\<close> throws, the \<open>TypeError\<close> leaves
  \<open>stopActiveCamera\<close>, the slot still holds the camera and its track is still live.
\<close>

theorem stopActiveCamera_throws_with_started_camera:
  "activeCamera cameraStarted =
     Some (LocalTrack (TrackObject 0) (StringValue ''video'') (StringValue ''input'')) \<and>
   fst (stopActiveCamera cameraStarted cameraStarted) = Some TypeError \<and>
   activeCamera (snd (stopActiveCamera cameraStarted cameraStarted)) =
     Some (LocalTrack (TrackObject 0) (StringValue ''video'') (StringValue ''input'')) \<and>
   track_live (tracks (snd (stopActiveCamera cameraStarted cameraStarted)) 0)"
  by (simp add: stopActiveCamera_def cameraStarted_def requestPermissionAndStartDevices_def
      startConstraints_def truthyId_def cameraFirst_def mount_def startTrack_def setters Let_def)

subsection \<open>C5: muting and unmuting\<close>

text \<open>
  C5 fails on the code. The active microphone the provider holds is a handle it built
  itself, whose \<open>.track\<close> is a string: with that microphone active, the assignment to
  \<open>.track.enabled\<close> throws, the \<open>TypeError\<close> leaves \<open>muteActiveMicrophone\<close> (and
  \<open>unMuteActiveMicrophone\<close> alike), the state is as it was and the microphone's track is
  still enabled.
\<close>

theorem muteActiveMicrophone_throws_with_started_microphone:
  "activeMicrophone microphoneStarted =
     Some (LocalTrack (TrackObject 0) (StringValue ''audio'') (StringValue ''input'')) \<and>
   muteActiveMicrophone microphoneStarted microphoneStarted =
     (Some TypeError, microphoneStarted) \<and>
   unMuteActiveMicrophone microphoneStarted microphoneStarted =
     (Some TypeError, microphoneStarted) \<and>
   track_kind (tracks microphoneStarted 0) = ''audio'' \<and>
   track_enabled (tracks microphoneStarted 0)"
  by (simp add: muteActiveMicrophone_def unMuteActiveMicrophone_def microphoneStarted_def
      requestPermissionAndStartDevices_def startConstraints_def truthyId_def bothDevices_def
      mount_def startTrack_def setters Let_def)

subsection \<open>C2: failures of acquisition\<close>

text \<open>
  C2, as amended. \<open>requestPermissionAndStartDevices\<close> lets no failure out, and every failure
  (no \<open>getUserMedia\<close> in the browser, a rejected acquisition) stores the one static message.
  Where the browser has \<open>getUserMedia\<close>, \<open>requestPermissionAndPopulateDevices\<close> lets no
  failure out either, and a rejected acquisition or enumeration stores the static message.
  \<open>getCamera\<close> and \<open>getMicrophone\<close> catch nothing: a rejected acquisition is the outcome of the
  call, and they never write \<open>userMediaError\<close>. None of the four stores any other error value.
\<close>

theorem requestPermission_failures_caught:
  "fst (requestPermissionAndStartDevices nav gum microphoneId cameraId s) = None \<and>
   (nav \<noteq> HasGetUserMedia \<or> (\<exists>e. gum (startConstraints microphoneId cameraId s) = Inl e) \<longrightarrow>
      userMediaError (snd (requestPermissionAndStartDevices nav gum microphoneId cameraId s)) =
        Some userMediaErrorMessage) \<and>
   (nav = HasGetUserMedia \<longrightarrow>
      fst (requestPermissionAndPopulateDevices nav gum enum s) = None) \<and>
   (nav = HasGetUserMedia \<and>
    ((\<exists>e. gum (defaultMicrophoneCameraOptions s) = Inl e) \<or> (\<exists>e. enum = Inl e)) \<longrightarrow>
      userMediaError (snd (requestPermissionAndPopulateDevices nav gum enum s)) =
        Some userMediaErrorMessage) \<and>
   (\<forall>e. gum (cameraConstraints d) = Inl e \<longrightarrow>
      fst (getCamera d gum s) = Inl e \<and>
      userMediaError (snd (getCamera d gum s)) = userMediaError s) \<and>
   (\<forall>e. gum (microphoneConstraints d) = Inl e \<longrightarrow>
      fst (getMicrophone d gum s) = Inl e \<and>
      userMediaError (snd (getMicrophone d gum s)) = userMediaError s) \<and>
   userMediaError (snd (requestPermissionAndStartDevices nav gum microphoneId cameraId s))
     \<in> {userMediaError s, Some userMediaErrorMessage} \<and>
   userMediaError (snd (requestPermissionAndPopulateDevices nav gum enum s))
     \<in> {userMediaError s, Some userMediaErrorMessage} \<and>
   userMediaError (snd (getCamera d gum s)) = userMediaError s \<and>
   userMediaError (snd (getMicrophone d gum s)) = userMediaError s"
proof -
  have start: "fst (requestPermissionAndStartDevices nav gum microphoneId cameraId s) = None"
    by (simp add: requestPermissionAndStartDevices_def Let_def split_beta
        split: sum.splits option.splits)
  have start_err:
    "userMediaError (snd (requestPermissionAndStartDevices nav gum microphoneId cameraId s)) =
       Some userMediaErrorMessage"
    if "nav \<noteq> HasGetUserMedia \<or> (\<exists>e. gum (startConstraints microphoneId cameraId s) = Inl e)"
    using that
    by (auto simp: requestPermissionAndStartDevices_def Let_def split_beta
        setUserMediaError_def emit_def split: sum.splits option.splits)
  have start_only:
    "userMediaError (snd (requestPermissionAndStartDevices nav gum microphoneId cameraId s))
       \<in> {userMediaError s, Some userMediaErrorMessage}"
    by (simp add: requestPermissionAndStartDevices_def Let_def split_beta
        setUserMediaError_def emit_def split: sum.splits option.splits)
  have pop: "fst (requestPermissionAndPopulateDevices nav gum enum s) = None"
    if "nav = HasGetUserMedia"
    using that
    by (simp add: requestPermissionAndPopulateDevices_def Let_def split_beta split: sum.splits)
  have pop_err:
    "userMediaError (snd (requestPermissionAndPopulateDevices nav gum enum s)) =
       Some userMediaErrorMessage"
    if "nav = HasGetUserMedia \<and>
        ((\<exists>e. gum (defaultMicrophoneCameraOptions s) = Inl e) \<or> (\<exists>e. enum = Inl e))"
    using that
    by (auto simp: requestPermissionAndPopulateDevices_def Let_def split_beta setters
        split: sum.splits)
  have pop_only:
    "userMediaError (snd (requestPermissionAndPopulateDevices nav gum enum s))
       \<in> {userMediaError s, Some userMediaErrorMessage}"
    by (simp add: requestPermissionAndPopulateDevices_def Let_def split_beta
        emit_def setUserMediaError_def setCameraDevices_def setMicrophoneDevices_def
        split: sum.splits)
  have cam: "fst (getCamera d gum s) = Inl e" if "gum (cameraConstraints d) = Inl e" for e
    using that by (simp add: getCamera_def Let_def)
  have cam_err: "userMediaError (snd (getCamera d gum s)) = userMediaError s"
    by (simp add: getCamera_def Let_def split_beta emit_def split: sum.splits)
  have mic: "fst (getMicrophone d gum s) = Inl e" if "gum (microphoneConstraints d) = Inl e" for e
    using that by (simp add: getMicrophone_def Let_def)
  have mic_err: "userMediaError (snd (getMicrophone d gum s)) = userMediaError s"
    by (simp add: getMicrophone_def Let_def split_beta emit_def split: sum.splits)
  from start start_err start_only pop pop_err pop_only cam cam_err mic mic_err
  show ?thesis by blast
qed

text \<open>
  The claim as stated fails for \<open>getCamera\<close>: where the browser denies the request, the
  rejection leaves the operation and no error is stored.
\<close>

theorem getCamera_failure_escapes:
  "fst (getCamera ''cam1'' denied (mount None None)) = Inl (DOMException ''NotAllowedError'') \<and>
   userMediaError (snd (getCamera ''cam1'' denied (mount None None))) = None"
  by (simp add: getCamera_def denied_def mount_def Let_def emit_def)

text \<open>A browser that denies every request, at mount.\<close>

theorem requestPermission_failures_caught_witness:
  "denied (startConstraints None None (mount None None)) = Inl (DOMException ''NotAllowedError'') \<and>
   fst (requestPermissionAndStartDevices HasGetUserMedia denied None None (mount None None)) = None \<and>
   userMediaError
     (snd (requestPermissionAndStartDevices HasGetUserMedia denied None None (mount None None))) =
     Some userMediaErrorMessage \<and>
   fst (requestPermissionAndPopulateDevices HasGetUserMedia denied (Inr threeDevices)
          (mount None None)) = None \<and>
   userMediaError
     (snd (requestPermissionAndPopulateDevices HasGetUserMedia denied (Inr threeDevices)
             (mount None None))) = Some userMediaErrorMessage \<and>
   fst (getMicrophone ''mic1'' denied (mount None None)) = Inl (DOMException ''NotAllowedError'') \<and>
   userMediaError (snd (getMicrophone ''mic1'' denied (mount None None))) = None"
proof -
  let ?e = "DOMException ''NotAllowedError''"
  have h: "denied c = Inl ?e" for c
    by (simp add: denied_def)
  have n: "userMediaError (mount None None) = None"
    by (simp add: mount_def)
  note t = requestPermission_failures_caught
    [of HasGetUserMedia denied None None "mount None None" "Inr threeDevices" "''mic1''"]
  from t h have "fst (requestPermissionAndStartDevices HasGetUserMedia denied None None
                        (mount None None)) = None"
    by blast
  moreover from t h have "userMediaError
     (snd (requestPermissionAndStartDevices HasGetUserMedia denied None None (mount None None))) =
     Some userMediaErrorMessage"
    by blast
  moreover from t have "fst (requestPermissionAndPopulateDevices HasGetUserMedia denied
                        (Inr threeDevices) (mount None None)) = None"
    by blast
  moreover from t h have "userMediaError
     (snd (requestPermissionAndPopulateDevices HasGetUserMedia denied (Inr threeDevices)
             (mount None None))) = Some userMediaErrorMessage"
    by blast
  moreover from t h have "fst (getMicrophone ''mic1'' denied (mount None None)) = Inl ?e"
    by blast
  moreover from t n have "userMediaError (snd (getMicrophone ''mic1'' denied (mount None None))) = None"
    by simp
  ultimately show ?thesis using h by blast
qed

subsection \<open>C6: populating the device lists\<close>

text \<open>
  C6. Where the browser grants the request and enumerates \<open>devices\<close>,
  \<open>requestPermissionAndPopulateDevices\<close> calls \<open>getUserMedia\<close> with the default options, stops
  every track of the stream it got, then enumerates, then sets \<open>microphoneDevices\<close> to the
  enumerated devices of kind \<open>audioinput\<close> and then \<open>cameraDevices\<close> to those of kind
  \<open>videoinput\<close>, each in the order of the enumeration; none of the stream's tracks is live
  afterwards, and no error leaves the call.
\<close>

theorem requestPermissionAndPopulateDevices_sequence:
  assumes "nav = HasGetUserMedia"
    and "gum (defaultMicrophoneCameraOptions s) = Inr stream"
    and "enum = Inr devices"
  shows "fst (requestPermissionAndPopulateDevices nav gum enum s) = None \<and>
    trace (snd (requestPermissionAndPopulateDevices nav gum enum s)) =
      trace s @ [EvNavGetUserMedia (defaultMicrophoneCameraOptions s)] @
      map EvTrackStop [next_track s..<next_track s + length stream] @
      [EvEnumerateDevices,
       EvSetMicrophoneDevices (filter (\<lambda>device. dev_kind device = ''audioinput'') devices),
       EvSetCameraDevices (filter (\<lambda>device. dev_kind device = ''videoinput'') devices)] \<and>
    (\<forall>i \<in> {next_track s..<next_track s + length stream}.
       \<not> track_live (tracks (snd (requestPermissionAndPopulateDevices nav gum enum s)) i)) \<and>
    microphoneDevices (snd (requestPermissionAndPopulateDevices nav gum enum s)) =
      filter (\<lambda>device. dev_kind device = ''audioinput'') devices \<and>
    cameraDevices (snd (requestPermissionAndPopulateDevices nav gum enum s)) =
      filter (\<lambda>device. dev_kind device = ''videoinput'') devices"
  using assms
  by (simp add: requestPermissionAndPopulateDevices_def Let_def split_beta
      emit_def setCameraDevices_def setMicrophoneDevices_def)

text \<open>At mount, with a browser that has a microphone, a camera and speakers.\<close>

theorem requestPermissionAndPopulateDevices_sequence_witness:
  "microphoneDevices
     (snd (requestPermissionAndPopulateDevices HasGetUserMedia bothDevices (Inr threeDevices)
             (mount None None))) =
     [\<lparr>dev_kind = ''audioinput'', dev_deviceId = ''mic1'', dev_label = ''Microphone''\<rparr>] \<and>
   cameraDevices
     (snd (requestPermissionAndPopulateDevices HasGetUserMedia bothDevices (Inr threeDevices)
             (mount None None))) =
     [\<lparr>dev_kind = ''videoinput'', dev_deviceId = ''cam1'', dev_label = ''Camera''\<rparr>] \<and>
   \<not> track_live
       (tracks (snd (requestPermissionAndPopulateDevices HasGetUserMedia bothDevices
                       (Inr threeDevices) (mount None None))) 0) \<and>
   \<not> track_live
       (tracks (snd (requestPermissionAndPopulateDevices HasGetUserMedia bothDevices
                       (Inr threeDevices) (mount None None))) 1)"
proof -
  have g: "bothDevices (defaultMicrophoneCameraOptions (mount None None)) =
             Inr [(''audio'', ''mic1''), (''video'', ''cam1'')]"
    by (simp add: bothDevices_def)
  have n: "next_track (mount None None) = 0"
    by (simp add: mount_def)
  have t: "fst (requestPermissionAndPopulateDevices HasGetUserMedia bothDevices
                 (Inr threeDevices) (mount None None)) = None \<and>
    trace (snd (requestPermissionAndPopulateDevices HasGetUserMedia bothDevices
                 (Inr threeDevices) (mount None None))) =
      trace (mount None None) @
      [EvNavGetUserMedia (defaultMicrophoneCameraOptions (mount None None))] @
      map EvTrackStop [next_track (mount None None)..<next_track (mount None None) +
                         length [(''audio'', ''mic1''), (''video'', ''cam1'')]] @
      [EvEnumerateDevices,
       EvSetMicrophoneDevices (filter (\<lambda>device. dev_kind device = ''audioinput'') threeDevices),
       EvSetCameraDevices (filter (\<lambda>device. dev_kind device = ''videoinput'') threeDevices)] \<and>
    (\<forall>i \<in> {next_track (mount None None)..<next_track (mount None None) +
                         length [(''audio'', ''mic1''), (''video'', ''cam1'')]}.
       \<not> track_live (tracks (snd (requestPermissionAndPopulateDevices HasGetUserMedia
                      bothDevices (Inr threeDevices) (mount None None))) i)) \<and>
    microphoneDevices (snd (requestPermissionAndPopulateDevices HasGetUserMedia bothDevices
                 (Inr threeDevices) (mount None None))) =
      filter (\<lambda>device. dev_kind device = ''audioinput'') threeDevices \<and>
    cameraDevices (snd (requestPermissionAndPopulateDevices HasGetUserMedia bothDevices
                 (Inr threeDevices) (mount None None))) =
      filter (\<lambda>device. dev_kind device = ''videoinput'') threeDevices"
    by (rule requestPermissionAndPopulateDevices_sequence
          [where gum = bothDevices and s = "mount None None"], rule refl, rule g, rule refl)
  from t have "microphoneDevices
     (snd (requestPermissionAndPopulateDevices HasGetUserMedia bothDevices (Inr threeDevices)
             (mount None None))) =
     filter (\<lambda>device. dev_kind device = ''audioinput'') threeDevices"
    by blast
  moreover from t have "cameraDevices
     (snd (requestPermissionAndPopulateDevices HasGetUserMedia bothDevices (Inr threeDevices)
             (mount None None))) =
     filter (\<lambda>device. dev_kind device = ''videoinput'') threeDevices"
    by blast
  moreover from t have "\<forall>i \<in> {next_track (mount None None)..<
        next_track (mount None None) + length [(''audio'', ''mic1''), (''video'', ''cam1'')]}.
       \<not> track_live (tracks (snd (requestPermissionAndPopulateDevices HasGetUserMedia
             bothDevices (Inr threeDevices) (mount None None))) i)"
    by blast
  ultimately show ?thesis
    by (simp add: threeDevices_def n)
qed

subsection \<open>C9: the level of the active microphone\<close>

lemma fold_add_sum_list: "fold (\<lambda>b a. a + b) xs (a::real) = a + sum_list xs"
  by (induction xs arbitrary: a) simp_all

lemma math_max_Max: "vs \<noteq> [] \<Longrightarrow> math_max vs = Finite (Max (set vs))"
  by (cases vs) (simp_all add: math_max_def Max.set_eq_fold [symmetric])

text \<open>
  C9. \<open>getActiveMicrophoneLevel\<close> returns \<open>null\<close> exactly when there is no active microphone or
  no analyser. Otherwise, the analyser having at least one frequency bin, it returns the
  record whose \<open>avgDb\<close> is the sum of the bytes of the frequency data divided by their number
  and whose \<open>peakDb\<close> is the largest of them.
\<close>

theorem getActiveMicrophoneLevel_mean_and_peak:
  "(getActiveMicrophoneLevel bins s = None \<longleftrightarrow>
      activeMicrophone s = None \<or> localAudioAnalyser s = None) \<and>
   (\<forall>m an. activeMicrophone s = Some m \<and> localAudioAnalyser s = Some an \<and>
        0 < frequencyBinCount an \<longrightarrow>
      getActiveMicrophoneLevel bins s =
        Some \<lparr>avgDb = Finite (sum_list (map (\<lambda>b. real (unat b)) (getByteFrequencyData bins an)) /
                              real (length (getByteFrequencyData bins an))),
              peakDb = Finite (Max (set (map (\<lambda>b. real (unat b))
                                 (getByteFrequencyData bins an))))\<rparr>)"
proof (intro conjI allI impI)
  show "getActiveMicrophoneLevel bins s = None \<longleftrightarrow>
      activeMicrophone s = None \<or> localAudioAnalyser s = None"
    by (simp add: getActiveMicrophoneLevel_def Let_def split: option.splits)
next
  fix m an
  assume a: "activeMicrophone s = Some m \<and> localAudioAnalyser s = Some an \<and>
        0 < frequencyBinCount an"
  let ?vals = "map (\<lambda>b. real (unat b)) (getByteFrequencyData bins an)"
  from a have ne: "?vals \<noteq> []"
    by (simp add: getByteFrequencyData_def)
  then have len: "length ?vals \<noteq> 0" by simp
  have "getActiveMicrophoneLevel bins s =
          Some \<lparr>avgDb = js_div (fold (\<lambda>b a. a + b) ?vals 0) (length ?vals),
                peakDb = math_max ?vals\<rparr>"
    using a by (simp add: getActiveMicrophoneLevel_def Let_def)
  also have "js_div (fold (\<lambda>b a. a + b) ?vals 0) (length ?vals) =
               Finite (sum_list ?vals / real (length ?vals))"
    using len by (simp only: js_div_def fold_add_sum_list if_False add_0)
  also have "math_max ?vals = Finite (Max (set ?vals))"
    using ne by (rule math_max_Max)
  finally show "getActiveMicrophoneLevel bins s =
        Some \<lparr>avgDb = Finite (sum_list ?vals / real (length (getByteFrequencyData bins an))),
              peakDb = Finite (Max (set ?vals))\<rparr>"
    by simp
qed

lemma upt_16: "[0..<16] = [0, 1, 2, 3, 4, 5, 6, 7, 8, 9, 10, 11, 12, 13, 14, 15]"
  by (simp add: upt_rec)

text \<open>Sixteen bins, one of them at 160: the mean is 10 and the peak 160.\<close>

theorem getActiveMicrophoneLevel_mean_and_peak_witness:
  "activeMicrophone metered =
     Some (LocalTrack (TrackObject 0) (StringValue ''audio'') (StringValue ''input'')) \<and>
   localAudioAnalyser metered = Some \<lparr>an_source = 0, fftSize = 32\<rparr> \<and>
   0 < frequencyBinCount \<lparr>an_source = 0, fftSize = 32\<rparr> \<and>
   getActiveMicrophoneLevel oneTone metered = Some \<lparr>avgDb = Finite 10, peakDb = Finite 160\<rparr>"
proof -
  let ?m = "LocalTrack (TrackObject 0) (StringValue ''audio'') (StringValue ''input'')"
  let ?an = "\<lparr>an_source = 0, fftSize = 32\<rparr>"
  have h1: "activeMicrophone metered = Some ?m"
    by (simp add: metered_def)
  have h2: "localAudioAnalyser metered = Some ?an"
    by (simp add: metered_def)
  have h3: "0 < frequencyBinCount ?an"
    by (simp add: frequencyBinCount_def)
  have d: "getByteFrequencyData oneTone ?an = [160, 0, 0, 0, 0, 0, 0, 0, 0, 0, 0, 0, 0, 0, 0, 0]"
    by (simp add: getByteFrequencyData_def frequencyBinCount_def upt_16 oneTone_def)
  from getActiveMicrophoneLevel_mean_and_peak [of oneTone metered] h1 h2 h3
  have "getActiveMicrophoneLevel oneTone metered =
        Some \<lparr>avgDb = Finite (sum_list (map (\<lambda>b. real (unat b)) (getByteFrequencyData oneTone ?an)) /
                              real (length (getByteFrequencyData oneTone ?an))),
              peakDb = Finite (Max (set (map (\<lambda>b. real (unat b))
                                 (getByteFrequencyData oneTone ?an))))\<rparr>"
    by blast
  then have "getActiveMicrophoneLevel oneTone metered =
               Some \<lparr>avgDb = Finite 10, peakDb = Finite 160\<rparr>"
    by (simp add: d)
  with h1 h2 h3 show ?thesis by blast
qed

subsection \<open>C3: the live tracks\<close>

lemma liveTracks_extend:
  assumes "next_track s' = next_track s + n"
    and "\<And>i. i < next_track s \<Longrightarrow> tracks s' i = tracks s i"
  shows "liveTracks k s' =
           liveTracks k s @
           filter (\<lambda>i. track_live (tracks s' i) \<and> track_kind (tracks s' i) = k)
             [next_track s..<next_track s + n]"
proof -
  have "[0..<next_track s + n] = [0..<next_track s] @ [next_track s..<next_track s + n]"
    by (rule upt_add_eq_append) simp
  moreover have "filter (\<lambda>i. track_live (tracks s' i) \<and> track_kind (tracks s' i) = k)
                   [0..<next_track s] = liveTracks k s"
    unfolding liveTracks_def by (rule filter_cong) (simp_all add: assms(2))
  ultimately show ?thesis by (simp add: liveTracks_def assms(1))
qed

lemma liveTracks_same:
  "tracks s' = tracks s \<Longrightarrow> next_track s' = next_track s \<Longrightarrow> liveTracks k s' = liveTracks k s"
  by (simp add: liveTracks_def)

lemma liveTracks_newTracks:
  "liveTracks k (snd (newTracks stream s)) =
     liveTracks k s @ acquired k (Inr stream) (next_track s)"
proof -
  let ?s' = "snd (newTracks stream s)"
  have "filter (\<lambda>i. track_live (tracks ?s' i) \<and> track_kind (tracks ?s' i) = k)
          [next_track s..<next_track s + length stream] =
        filter (\<lambda>i. fst (stream ! (i - next_track s)) = k)
          [next_track s..<next_track s + length stream]"
  proof (rule filter_cong [OF refl])
    fix i
    assume "i \<in> set [next_track s..<next_track s + length stream]"
    then obtain j where j: "i = next_track s + j" "j < length stream"
      by (auto simp: le_iff_add)
    from newTracks_new [OF j(2), of s] j(1)
    show "(track_live (tracks ?s' i) \<and> track_kind (tracks ?s' i) = k) =
          (fst (stream ! (i - next_track s)) = k)"
      by simp
  qed
  with liveTracks_extend [of ?s' s "length stream" k] show ?thesis
    by (simp add: acquired_def)
qed

lemma liveTracks_stopped:
  "liveTracks k (fold stopTrack [next_track s..<next_track s + length stream]
                   (snd (newTracks stream s))) = liveTracks k s"
proof -
  let ?s' = "fold stopTrack [next_track s..<next_track s + length stream]
               (snd (newTracks stream s))"
  have "filter (\<lambda>i. track_live (tracks ?s' i) \<and> track_kind (tracks ?s' i) = k)
          [next_track s..<next_track s + length stream] = []"
    by (simp add: filter_empty_conv)
  with liveTracks_extend [of ?s' s "length stream" k] show ?thesis by simp
qed

text \<open>
  C3, as amended. The code does not keep the live tracks to one of each kind.
  \<open>requestPermissionAndPopulateDevices\<close> leaves the live tracks of every kind as they were.
  After \<open>getCamera\<close>, \<open>getMicrophone\<close> or \<open>requestPermissionAndStartDevices\<close> the live tracks of a
  kind are those that were live before the call, followed by the tracks of that kind that
  the browser handed over during the call: these operations stop no track.
\<close>

theorem acquisitions_add_live_tracks:
  "liveTracks k (snd (requestPermissionAndPopulateDevices nav gum enum s)) = liveTracks k s \<and>
   liveTracks k (snd (getCamera d gum s)) =
     liveTracks k s @ acquired k (gum (cameraConstraints d)) (next_track s) \<and>
   liveTracks k (snd (getMicrophone d gum s)) =
     liveTracks k s @ acquired k (gum (microphoneConstraints d)) (next_track s) \<and>
   liveTracks k (snd (requestPermissionAndStartDevices nav gum microphoneId cameraId s)) =
     liveTracks k s @
     (if nav = HasGetUserMedia
      then acquired k (gum (startConstraints microphoneId cameraId s)) (next_track s)
      else [])"
proof (intro conjI)
  have e: "liveTracks k (emit ev x) = liveTracks k x" for ev x
    by (simp add: liveTracks_def emit_def)
  have n: "next_track (emit ev x) = next_track x" for ev x
    by (simp add: emit_def)
  show "liveTracks k (snd (requestPermissionAndPopulateDevices nav gum enum s)) = liveTracks k s"
  proof (cases "nav = HasGetUserMedia")
    case False
    then show ?thesis by (simp add: requestPermissionAndPopulateDevices_def)
  next
    case True
    let ?s1 = "emit (EvNavGetUserMedia (defaultMicrophoneCameraOptions s)) s"
    show ?thesis
    proof (cases "gum (defaultMicrophoneCameraOptions s)")
      case (Inl err)
      with True show ?thesis
        by (simp add: requestPermissionAndPopulateDevices_def Let_def liveTracks_def
            setUserMediaError_def emit_def)
    next
      case (Inr stream)
      let ?s3 = "fold stopTrack [next_track ?s1..<next_track ?s1 + length stream]
                   (snd (newTracks stream ?s1))"
      have s3: "liveTracks k ?s3 = liveTracks k s"
        using liveTracks_stopped [of k ?s1 stream] by (simp add: e)
      have "tracks (snd (requestPermissionAndPopulateDevices nav gum enum s)) = tracks ?s3"
        and "next_track (snd (requestPermissionAndPopulateDevices nav gum enum s)) =
               next_track ?s3"
        using True Inr
        by (simp_all add: requestPermissionAndPopulateDevices_def Let_def split_beta
            setUserMediaError_def setCameraDevices_def setMicrophoneDevices_def emit_def
            split: sum.splits)
      then have "liveTracks k (snd (requestPermissionAndPopulateDevices nav gum enum s)) =
              liveTracks k ?s3"
        by (rule liveTracks_same)
      with s3 show ?thesis by simp
    qed
  qed
next
  let ?s1 = "emit (EvSdkGetUserMedia (cameraConstraints d)) s"
  show "liveTracks k (snd (getCamera d gum s)) =
     liveTracks k s @ acquired k (gum (cameraConstraints d)) (next_track s)"
  proof (cases "gum (cameraConstraints d)")
    case (Inl err)
    then show ?thesis
      by (simp add: getCamera_def Let_def acquired_def liveTracks_def emit_def)
  next
    case (Inr stream)
    with liveTracks_newTracks [of k stream ?s1] show ?thesis
      by (simp add: getCamera_def Let_def split_beta liveTracks_def emit_def)
  qed
next
  let ?s1 = "emit (EvSdkGetUserMedia (microphoneConstraints d)) s"
  show "liveTracks k (snd (getMicrophone d gum s)) =
     liveTracks k s @ acquired k (gum (microphoneConstraints d)) (next_track s)"
  proof (cases "gum (microphoneConstraints d)")
    case (Inl err)
    then show ?thesis
      by (simp add: getMicrophone_def Let_def acquired_def liveTracks_def emit_def)
  next
    case (Inr stream)
    with liveTracks_newTracks [of k stream ?s1] show ?thesis
      by (simp add: getMicrophone_def Let_def split_beta liveTracks_def emit_def)
  qed
next
  let ?c = "startConstraints microphoneId cameraId s"
  let ?s1 = "emit (EvNavGetUserMedia ?c) (s\<lparr>defaultMicrophoneCameraOptions := ?c\<rparr>)"
  show "liveTracks k (snd (requestPermissionAndStartDevices nav gum microphoneId cameraId s)) =
     liveTracks k s @
     (if nav = HasGetUserMedia
      then acquired k (gum (startConstraints microphoneId cameraId s)) (next_track s)
      else [])"
  proof (cases "nav = HasGetUserMedia")
    case False
    then show ?thesis
      by (simp add: requestPermissionAndStartDevices_def liveTracks_def setUserMediaError_def
          emit_def)
  next
    case True
    show ?thesis
    proof (cases "gum ?c")
      case (Inl err)
      with True show ?thesis
        by (simp add: requestPermissionAndStartDevices_def Let_def acquired_def liveTracks_def
            setUserMediaError_def emit_def)
    next
      case (Inr stream)
      have "tracks (snd (requestPermissionAndStartDevices nav gum microphoneId cameraId s)) =
              tracks (snd (newTracks stream ?s1))"
        and "next_track (snd (requestPermissionAndStartDevices nav gum microphoneId cameraId s)) =
              next_track (snd (newTracks stream ?s1))"
        using True Inr
        by (simp_all add: requestPermissionAndStartDevices_def Let_def split_beta
            setUserMediaError_def emit_def split: option.splits)
      then have "liveTracks k
                   (snd (requestPermissionAndStartDevices nav gum microphoneId cameraId s)) =
              liveTracks k (snd (newTracks stream ?s1))"
        by (rule liveTracks_same)
      with liveTracks_newTracks [of k stream ?s1] True Inr show ?thesis
        by (simp add: liveTracks_def emit_def)
    qed
  qed
qed

text \<open>
  The claim as stated fails: after \<open>getCamera\<close> twice, with a browser that grants a camera each
  time, the camera tracks 0 and 1 are both live.
\<close>

theorem getCamera_twice_two_live_cameras:
  "liveTracks ''video''
     (snd (getCamera ''cam2'' oneCamera (snd (getCamera ''cam1'' oneCamera (mount None None))))) =
     [0, 1]"
  by (simp add: getCamera_def oneCamera_def mount_def emit_def cameraConstraints_def Let_def
      liveTracks_def upt_rec)

text \<open>At mount, with a browser that hands over a microphone and a camera: starting the
  devices leaves one live track of each kind, populating the lists leaves none.\<close>

theorem acquisitions_add_live_tracks_witness:
  "liveTracks ''video''
     (snd (requestPermissionAndStartDevices HasGetUserMedia bothDevices None None
             (mount None None))) = [1] \<and>
   liveTracks ''audio''
     (snd (requestPermissionAndStartDevices HasGetUserMedia bothDevices None None
             (mount None None))) = [0] \<and>
   liveTracks ''video''
     (snd (requestPermissionAndPopulateDevices HasGetUserMedia bothDevices (Inr threeDevices)
             (mount None None))) = []"
proof -
  have l: "liveTracks k (mount None None) = []" for k
    by (simp add: liveTracks_def mount_def)
  have n: "next_track (mount None None) = 0"
    by (simp add: mount_def)
  have g: "bothDevices c = Inr [(''audio'', ''mic1''), (''video'', ''cam1'')]" for c
    by (simp add: bothDevices_def)
  have u: "[0..<Suc (Suc 0)] = [0, Suc 0]"
    by (simp add: upt_rec)
  from acquisitions_add_live_tracks
    [of "''video''" HasGetUserMedia bothDevices "Inr threeDevices" "mount None None" _ None None]
  have "liveTracks ''video''
     (snd (requestPermissionAndStartDevices HasGetUserMedia bothDevices None None
             (mount None None))) = [1]"
    and "liveTracks ''video''
     (snd (requestPermissionAndPopulateDevices HasGetUserMedia bothDevices (Inr threeDevices)
             (mount None None))) = []"
    by (simp_all add: l n g acquired_def u)
  moreover from acquisitions_add_live_tracks
    [of "''audio''" HasGetUserMedia bothDevices "Inr threeDevices" "mount None None" _ None None]
  have "liveTracks ''audio''
     (snd (requestPermissionAndStartDevices HasGetUserMedia bothDevices None None
             (mount None None))) = [0]"
    by (simp add: l n g acquired_def u)
  ultimately show ?thesis by blast
qed

section \<open>Properties of the layout component\<close>

lemma clone_withSize:
  "(if isValidElement child
    then cloneElement child [(''width'', PNum bw), (''height'', PNum bh)]
    else child) = withSize bw bh child"
  by (cases child) (simp_all add: withSize_def)

subsection \<open>C4: the computed size is injected into every element\<close>

text \<open>
  C4. When the box computation yields a fit with nonzero width and height, \<open>GalleryLayout\<close>
  renders its children with that one width and height written into the props of every
  child that is an element, and the other children as they are. When it yields nothing, or a
  fit whose width or height is zero, the children are rendered as they are.
\<close>

theorem GalleryLayout_injects_fit:
  "(\<forall>b. bestFit calc children width height gap = Some b \<and>
        box_width b \<noteq> 0 \<and> box_height b \<noteq> 0 \<longrightarrow>
      GalleryLayout calc children width height gap =
        Children_map (withSize (box_width b) (box_height b)) children) \<and>
   (bestFit calc children width height gap = None \<or>
    (\<exists>b. bestFit calc children width height gap = Some b \<and>
         (box_width b = 0 \<or> box_height b = 0)) \<longrightarrow>
      GalleryLayout calc children width height gap = Children_map (\<lambda>child. child) children)"
  by (auto simp: GalleryLayout_def Let_def clone_withSize)


text \<open>A tile, a text and an empty node, with a helper that answers 100 by 50 and with one
  that never fits.\<close>

theorem GalleryLayout_injects_fit_witness:
  "bestFit fixedFit tiles 800 600 None = Some \<lparr>box_width = 100, box_height = 50\<rparr> \<and>
   GalleryLayout fixedFit tiles 800 600 None =
     Array [Element \<lparr>el_type = ''Tile'',
                     el_props = [''height'' \<mapsto> PNum 50, ''width'' \<mapsto> PNum 100]\<rparr>,
            Text ''x''] \<and>
   bestFit noFit tiles 800 600 None = None \<and>
   GalleryLayout noFit tiles 800 600 None =
     Array [Element \<lparr>el_type = ''Tile'', el_props = Map.empty\<rparr>, Text ''x'']"
proof -
  let ?b = "\<lparr>box_width = 100, box_height = 50\<rparr>"
  have h1: "bestFit fixedFit tiles 800 600 None = Some ?b"
    by (simp add: bestFit_def bestFitCall_def fixedFit_def tiles_def)
  have h2: "bestFit noFit tiles 800 600 None = None"
    by (simp add: bestFit_def bestFitCall_def noFit_def tiles_def)
  have "bestFit fixedFit tiles 800 600 None = Some ?b \<and> box_width ?b \<noteq> 0 \<and> box_height ?b \<noteq> 0"
    using h1 by simp
  with GalleryLayout_injects_fit [of fixedFit tiles 800 600 None]
  have "GalleryLayout fixedFit tiles 800 600 None =
          Children_map (withSize (box_width ?b) (box_height ?b)) tiles"
    by blast
  then have a: "GalleryLayout fixedFit tiles 800 600 None =
     Array [Element \<lparr>el_type = ''Tile'',
                     el_props = [''height'' \<mapsto> PNum 50, ''width'' \<mapsto> PNum 100]\<rparr>,
            Text ''x'']"
    by (simp add: Children_map_def tiles_def withSize_def)
  from GalleryLayout_injects_fit [of noFit tiles 800 600 None] h2
  have "GalleryLayout noFit tiles 800 600 None = Children_map (\<lambda>child. child) tiles"
    by blast
  then have b: "GalleryLayout noFit tiles 800 600 None =
     Array [Element \<lparr>el_type = ''Tile'', el_props = Map.empty\<rparr>, Text ''x'']"
    by (simp add: Children_map_def tiles_def)
  from h1 a h2 b show ?thesis by blast
qed

subsection \<open>C7: what the helper is called with\<close>

text \<open>
  C7. Whatever the helper is, the fit \<open>GalleryLayout\<close> works with is the helper's answer to
  exactly the given width, the given height, the number of children, the ratio 16 to 9 and
  the given gap, 10 when none is given (and no call is made when \<open>children\<close> is falsy); the
  rendering depends on the helper through that one answer only.
\<close>

theorem GalleryLayout_passes_arguments:
  "bestFit calc children width height gap =
     (if truthy children
      then calc width height (Children_count children) (16 / 9)
             (case gap of None \<Rightarrow> 10 | Some g \<Rightarrow> g)
      else None) \<and>
   GalleryLayout calc children width height gap =
     GalleryLayout
       (\<lambda>w h n ratio g. calc width height (Children_count children) (16 / 9)
                           (case gap of None \<Rightarrow> 10 | Some g \<Rightarrow> g))
       children width height gap"
  by (simp add: GalleryLayout_def bestFit_def bestFitCall_def gapOf_def Let_def)

text \<open>Three children in a viewport of 800 by 600, with no gap given and with a gap of 4.\<close>

theorem GalleryLayout_passes_arguments_witness:
  "truthy tiles \<and>
   bestFit probe tiles 800 600 None = probe 800 600 3 (16 / 9) 10 \<and>
   bestFit probe tiles 800 600 (Some 4) = probe 800 600 3 (16 / 9) 4 \<and>
   bestFit probe (Text []) 800 600 None = None"
proof -
  have t: "truthy tiles" by (simp add: tiles_def)
  have n: "Children_count tiles = 3" by (simp add: tiles_def Children_count_def)
  from GalleryLayout_passes_arguments [of probe tiles 800 600 None] t n
  have a: "bestFit probe tiles 800 600 None = probe 800 600 3 (16 / 9) 10" by simp
  from GalleryLayout_passes_arguments [of probe tiles 800 600 "Some 4"] t n
  have b: "bestFit probe tiles 800 600 (Some 4) = probe 800 600 3 (16 / 9) 4" by simp
  from GalleryLayout_passes_arguments [of probe "Text []" 800 600 None]
  have c: "bestFit probe (Text []) 800 600 None = None" by simp
  from t a b c show ?thesis by blast
qed

subsection \<open>C8: the boxes fit the viewport\<close>

lemma fold_larger_mem: "fold larger bs b \<in> set (b # bs)"
proof (induction bs arbitrary: b)
  case Nil
  show ?case by simp
next
  case (Cons c bs)
  have "larger c b = c \<or> larger c b = b" by (simp add: larger_def)
  with Cons.IH [of "larger c b"] show ?case by auto
qed

lemma calcOptimalBoxes_candidate:
  assumes "calcOptimalBoxes width height numBoxes aspectRatio gap = Some b"
  shows "\<exists>cols. 1 \<le> cols \<and> cols \<le> numBoxes \<and>
           b = gridBox width height numBoxes aspectRatio gap cols \<and>
           0 < box_width b \<and> 0 < box_height b"
proof -
  let ?cands = "filter (\<lambda>b. 0 < box_width b \<and> 0 < box_height b)
             (map (gridBox width height numBoxes aspectRatio gap) [1..<Suc numBoxes])"
  from assms obtain c cs where cs: "?cands = c # cs" and b: "b = fold larger cs c"
    by (auto simp: calcOptimalBoxes_def split: list.splits)
  have "b \<in> set ?cands"
    unfolding cs b by (rule fold_larger_mem)
  then show ?thesis by auto
qed

lemma share_le:
  fixes x :: real
  assumes "0 < x / real n" and "0 < n"
  shows "x / real n \<le> x"
proof -
  from assms have x: "0 < x" by (simp add: zero_less_divide_iff)
  from assms have "1 \<le> real n" by simp
  with x show ?thesis by (simp add: divide_le_eq mult_le_cancel_left1)
qed

lemma gridBox_fits:
  assumes "0 \<le> gap" and "0 < aspectRatio" and "1 \<le> cols" and "cols \<le> numBoxes"
    and "0 < box_width (gridBox width height numBoxes aspectRatio gap cols)"
    and "0 < box_height (gridBox width height numBoxes aspectRatio gap cols)"
  shows "box_width (gridBox width height numBoxes aspectRatio gap cols) \<le> width \<and>
         box_height (gridBox width height numBoxes aspectRatio gap cols) \<le> height"
proof -
  define rows where "rows = (numBoxes + cols - 1) div cols"
  define cellWidth where "cellWidth = (width - gap * real (cols - 1)) / real cols"
  define cellHeight where "cellHeight = (height - gap * real (rows - 1)) / real rows"
  define w where "w = min cellWidth (cellHeight * aspectRatio)"
  have bw: "box_width (gridBox width height numBoxes aspectRatio gap cols) = w"
    and bh: "box_height (gridBox width height numBoxes aspectRatio gap cols) = w / aspectRatio"
    by (simp_all add: gridBox_def Let_def w_def cellWidth_def cellHeight_def rows_def)
  from assms(5) bw have w0: "0 < w" by simp
  have rows: "0 < rows"
    using assms(3,4) by (simp add: rows_def div_greater_zero_iff)
  have "w \<le> cellWidth" by (simp add: w_def)
  with w0 have cw0: "0 < cellWidth" by simp
  then have "cellWidth \<le> width - gap * real (cols - 1)"
    unfolding cellWidth_def using assms(3) by (intro share_le) simp_all
  also have "\<dots> \<le> width" using assms(1) by simp
  finally have 1: "w \<le> width" using \<open>w \<le> cellWidth\<close> by simp
  have "w \<le> cellHeight * aspectRatio" by (simp add: w_def)
  then have hle: "w / aspectRatio \<le> cellHeight"
    using assms(2) by (simp add: divide_le_eq)
  from w0 assms(2) have "0 < w / aspectRatio" by simp
  with hle have ch0: "0 < cellHeight" by simp
  then have "cellHeight \<le> height - gap * real (rows - 1)"
    unfolding cellHeight_def using rows by (intro share_le) simp_all
  also have "\<dots> \<le> height" using assms(1) by simp
  finally have 2: "w / aspectRatio \<le> height" using hle by simp
  from 1 2 bw bh show ?thesis by simp
qed

text \<open>
  C8. With a gap that is not negative, the box \<open>GalleryLayout\<close>'s layout computation yields,
  for any children and any viewport, is at most as wide as the viewport and at most as high.
\<close>

theorem GalleryLayout_box_within_viewport:
  assumes "0 \<le> gapOf gap"
    and "bestFit calcOptimalBoxes children width height gap = Some b"
  shows "box_width b \<le> width \<and> box_height b \<le> height"
proof -
  from assms(2) have "calcOptimalBoxes width height (Children_count children) (16 / 9) (gapOf gap) = Some b"
    by (simp add: bestFit_def bestFitCall_def split: if_splits)
  from calcOptimalBoxes_candidate [OF this] obtain cols where
    c: "1 \<le> cols" "cols \<le> Children_count children"
      "b = gridBox width height (Children_count children) (16 / 9) (gapOf gap) cols"
      "0 < box_width b" "0 < box_height b"
    by blast
  from gridBox_fits [OF assms(1) _ c(1,2), of "16 / 9" width height] c(3,4,5)
  show ?thesis by simp
qed


lemma upt_1_4: "[Suc 0..<4] = [Suc 0, 2, 3]"
  by (simp add: upt_rec)

text \<open>Three children in 800 by 600 with the default gap: two columns of boxes 395 wide.\<close>

theorem GalleryLayout_box_within_viewport_witness:
  "0 \<le> gapOf None \<and>
   bestFit calcOptimalBoxes tiles 800 600 None =
     Some \<lparr>box_width = 395, box_height = 395 / (16 / 9)\<rparr> \<and>
   box_width \<lparr>box_width = 395, box_height = 395 / (16 / 9)\<rparr> \<le> 800 \<and>
   box_height \<lparr>box_width = 395, box_height = 395 / (16 / 9)\<rparr> \<le> 600"
proof -
  let ?b = "\<lparr>box_width = 395, box_height = 395 / (16 / 9)\<rparr>"
  have g: "0 \<le> gapOf None" by (simp add: gapOf_def)
  have n: "Children_count tiles = 3" by (simp add: tiles_def Children_count_def)
  have c1: "gridBox 800 600 3 (16 / 9) 10 (Suc 0) = \<lparr>box_width = 9280 / 27, box_height = 580 / 3\<rparr>"
    by (simp add: gridBox_def Let_def)
  have c2: "gridBox 800 600 3 (16 / 9) 10 2 = ?b"
    by (simp add: gridBox_def Let_def)
  have c3: "gridBox 800 600 3 (16 / 9) 10 3 = \<lparr>box_width = 260, box_height = 585 / 4\<rparr>"
    by (simp add: gridBox_def Let_def)
  have "calcOptimalBoxes 800 600 3 (16 / 9) 10 = Some ?b"
    by (simp add: calcOptimalBoxes_def upt_1_4 c1 c2 c3 larger_def)
  moreover have "truthy tiles" by (simp add: tiles_def)
  ultimately have h: "bestFit calcOptimalBoxes tiles 800 600 None = Some ?b"
    by (simp add: bestFit_def bestFitCall_def n gapOf_def)
  from GalleryLayout_box_within_viewport [OF g h] g h show ?thesis by blast
qed

end
